theory Spec2Isabelle
  imports Main "HOL-Library.AList" "HOL-Library.Char_ord" "HOL-Library.List_Lexorder"
begin

section \<open>Session and conversation state of claudegram\<close>

text \<open>
  The development embeds three pieces of the repository: the path resolver
  \<open>resolveWorkingDirectory\<close> and the class \<open>SessionManager\<close> of
  \<^verbatim>\<open>src/claude/session-manager.ts\<close>, and the class \<open>SessionHistory\<close> (the history store)
  with its JSON file.

  Conventions of the embedding.
  \<^item> A JavaScript string is a \<open>string\<close>; an element stands for one code unit. Every
    string operation of the source that is embedded here is positional (\<open>startsWith\<close>,
    \<open>slice\<close>, \<open>indexOf\<close>, \<open>substring\<close>).
  \<^item> A chat id is an integer-valued JavaScript number, an \<open>int\<close> (one that a double
    holds).
  \<^item> \<open>undefined\<close> is \<open>None\<close>.
  \<^item> The program reads its environment: the clock, the random generator, the file system.
    The clock and the random generator are a \<open>runtime\<close>, indexed by the number of reads
    made so far (the field \<open>ticks\<close> of the state); the file system is a \<open>filesystem\<close>,
    given anew with every call, since it may change between two calls.
  \<^item> An ISO-8601 string is kept as the string it is. A \<open>Date\<close> object is represented by
    a string that denotes it: \<open>DateOf s\<close> is \<open>new Date(s)\<close>, and the current time
    \<open>new Date()\<close> is \<open>DateOf\<close> of its own \<open>toISOString()\<close> rendering.
\<close>

subsection \<open>Data model\<close>

record SessionHistoryEntry =
  conversationId :: string
  claudeSessionId :: "string option"
  projectPath :: string
  projectName :: string
  lastMessagePreview :: string
  createdAt :: string
  lastActivity :: string

datatype Date = DateOf string

record Session =
  session_conversationId :: string
  session_claudeSessionId :: "string option"
  workingDirectory :: string
  session_createdAt :: Date
  session_lastActivity :: Date

text \<open>A JSON document, as \<open>JSON.parse\<close> returns it and \<open>JSON.stringify\<close> takes it. An
  object is an association list; a parsed document has no duplicate key.\<close>

datatype json =
    JNull
  | JBool bool
  | JNumber int
  | JString string
  | JArray "json list"
  | JObject "(string \<times> json) list"

text \<open>The file \<^verbatim>\<open>~/.claudegram/sessions.json\<close>: missing, unreadable or not JSON, or a
  document.\<close>

datatype disk = Missing | Unparseable | Document json

text \<open>The clock and the random generator: what the read number \<open>k\<close> returns, as
  \<open>new Date().toISOString()\<close>, as \<open>Date.now()\<close>, and as
  \<open>Math.random().toString(36).substring(2, 9)\<close>.\<close>

record runtime =
  now_iso :: "nat \<Rightarrow> string"
  now_ms :: "nat \<Rightarrow> int"
  random36 :: "nat \<Rightarrow> string"

text \<open>The file system at the time of a call: \<open>fs.existsSync\<close>, \<open>os.homedir()\<close>, and whether
  \<open>fs.writeFileSync\<close> of the history file succeeds.\<close>

record filesystem =
  existsSync :: "string \<Rightarrow> bool"
  homedir :: string
  writable :: bool

text \<open>The state of the process: the live cache \<open>SessionManager.sessions\<close>, the history
  \<open>SessionHistory.data.sessions\<close> (an object keyed by chat id, here an association list in
  insertion order; no statement depends on the order of the chats), the history file, and
  the number of reads of the clock and the random generator so far.\<close>

record state =
  sessions :: "int \<Rightarrow> Session option"
  data :: "(int \<times> SessionHistoryEntry list) list"
  history_file :: disk
  ticks :: nat

definition initial_state :: state where
  "initial_state = \<lparr>sessions = Map.empty, data = [], history_file = Missing, ticks = 0\<rparr>"

definition MAX_HISTORY_PER_CHAT :: nat where
  "MAX_HISTORY_PER_CHAT = 20"

subsection \<open>Helpers of the JavaScript runtime\<close>

text \<open>\<open>Array.prototype.findIndex\<close>; the source's \<open>-1\<close> is \<open>None\<close>.\<close>

fun findIndex :: "('a \<Rightarrow> bool) \<Rightarrow> 'a list \<Rightarrow> nat option" where
  "findIndex P [] = None"
| "findIndex P (x # xs) = (if P x then Some 0 else map_option Suc (findIndex P xs))"

text \<open>\<open>Array.prototype.find\<close>.\<close>

definition find_entry :: "('a \<Rightarrow> bool) \<Rightarrow> 'a list \<Rightarrow> 'a option" where
  "find_entry P xs = map_option (\<lambda>i. xs ! i) (findIndex P xs)"

definition startsWith :: "string \<Rightarrow> string \<Rightarrow> bool" where
  "startsWith s p = (take (length p) s = p)"

text \<open>\<open>path.basename\<close> (POSIX): trailing slashes are dropped, then the last segment is
  taken.\<close>

definition basename :: "string \<Rightarrow> string" where
  "basename p =
     rev (takeWhile (\<lambda>c. c \<noteq> CHR ''/'') (dropWhile (\<lambda>c. c = CHR ''/'') (rev p)))"

text \<open>One read of the clock, as \<open>new Date().toISOString()\<close>.\<close>

definition read_clock :: "runtime \<Rightarrow> state \<Rightarrow> string \<times> state" where
  "read_clock rt st = (now_iso rt (ticks st), st\<lparr>ticks := Suc (ticks st)\<rparr>)"

subsection \<open>Decimal notation of numbers\<close>

text \<open>The character of a digit \<open>d < 10\<close>.\<close>

definition digit_char :: "nat \<Rightarrow> char" where
  "digit_char d = ''0123456789'' ! d"

definition is_digit :: "char \<Rightarrow> bool" where
  "is_digit c = (CHR ''0'' \<le> c \<and> c \<le> CHR ''9'')"

definition digit_value :: "char \<Rightarrow> nat" where
  "digit_value c = of_char c - of_char CHR ''0''"

fun digits :: "nat \<Rightarrow> string" where
  "digits n = (if n < 10 then [digit_char n] else digits (n div 10) @ [digit_char (n mod 10)])"

declare digits.simps [simp del]

definition digits_value :: "string \<Rightarrow> nat" where
  "digits_value ds = foldl (\<lambda>acc c. 10 * acc + digit_value c) 0 ds"

text \<open>A JavaScript number is a double. The integers that are numbers are those of at most
  53 binary digits, times a power of two. \<open>round_to_double\<close> is the number nearest to an
  integer \<open>y\<close>: \<open>y\<close> itself when it has at most 53 binary digits; otherwise its neighbour
  among the multiples of \<open>u\<close>, the unit in the last place, the one with the even multiplier
  when \<open>y\<close> lies half way. (Overflow is left to the caller: the rounding knows no largest
  number.)\<close>

fun bitlen :: "nat \<Rightarrow> nat" where
  "bitlen n = (if n = 0 then 0 else Suc (bitlen (n div 2)))"

declare bitlen.simps [simp del]

definition round_to_double :: "nat \<Rightarrow> nat" where
  "round_to_double y =
     (if bitlen y \<le> 53 then y
      else (let u = 2 ^ (bitlen y - 53); q = y div u; r = y mod u
            in if 2 * r < u \<or> (2 * r = u \<and> even q) then q * u else (q + 1) * u))"

text \<open>\<open>Number.prototype.toString\<close> of an integer-valued number \<open>m\<close>, as it names a
  property (\<open>this.data.sessions[chatId]\<close>) and fills a template. JavaScript prints the
  decimal with the fewest significant digits that still reads back as \<open>m\<close>, and among
  those the one nearest to \<open>m\<close> (the even one of two equally near). \<open>shortest_search\<close>
  looks for it with \<open>k = 1, 2, ...\<close> significant digits, among the two multiples of
  \<open>10^(l - k)\<close> around \<open>m\<close>, where \<open>l\<close> is the number of digits of \<open>m\<close>; with all
  \<open>l\<close> digits it is \<open>m\<close> itself. The decimal found is an integer \<open>v\<close>: below \<open>10^21\<close>
  it is printed in digits, from \<open>10^21\<close> on in the exponent notation \<^verbatim>\<open>d.ddde+NN\<close>.\<close>

function shortest_search :: "nat \<Rightarrow> nat \<Rightarrow> nat \<Rightarrow> nat" where
  "shortest_search m l k =
     (if l \<le> k then m
      else (let scale = 10 ^ (l - k);
                below = (m div scale) * scale;
                above = below + scale
            in if round_to_double below = m \<and> round_to_double above = m
               then (if m - below < above - m then below
                     else if above - m < m - below then above
                     else if even (m div scale) then below else above)
               else if round_to_double below = m then below
               else if round_to_double above = m then above
               else shortest_search m l (Suc k)))"
  by pat_completeness auto
termination
  by (relation "measure (\<lambda>(m, l, k). l - k)") auto

declare shortest_search.simps [simp del]

definition shortest_decimal :: "nat \<Rightarrow> nat" where
  "shortest_decimal m = shortest_search m (length (digits m)) 1"

definition exponent_notation :: "nat \<Rightarrow> string" where
  "exponent_notation v =
     (let ds = digits v;
          significant = rev (dropWhile (\<lambda>c. c = CHR ''0'') (rev ds))
      in hd significant # (if tl significant = [] then [] else CHR ''.'' # tl significant)
           @ ''e+'' @ digits (length ds - 1))"

definition number_to_string :: "int \<Rightarrow> string" where
  "number_to_string n =
     (let v = shortest_decimal (nat \<bar>n\<bar>);
          body = (if v < 10 ^ 21 then digits v else exponent_notation v)
      in if n < 0 then CHR ''-'' # body else body)"

text \<open>\<open>parseInt(s, 10)\<close>: leading white space is skipped, a sign is read, then the longest
  run of digits. The result is \<open>NaN\<close> when there is no digit; otherwise the number nearest
  to the integer that the digits denote, which is \<open>Infinity\<close> (of either sign) from
  \<open>2^1024\<close> on. (Beyond 20 digits the standard lets an implementation read the later
  digits as zeros; here every digit is read.) The white space listed is that of the code
  units below 256.\<close>

datatype parsed = NaN | Infinite | Num int

definition is_space :: "char \<Rightarrow> bool" where
  "is_space c = (c \<in> set [CHR 0x09, CHR 0x0A, CHR 0x0B, CHR 0x0C, CHR 0x0D, CHR 0x20, CHR 0xA0])"

definition parseInt :: "string \<Rightarrow> parsed" where
  "parseInt s =
     (let t = dropWhile is_space s;
          negative = (t \<noteq> [] \<and> hd t = CHR ''-'');
          u = (if t \<noteq> [] \<and> (hd t = CHR ''-'' \<or> hd t = CHR ''+'') then tl t else t);
          ds = takeWhile is_digit u;
          r = round_to_double (digits_value ds)
      in if ds = [] then NaN
         else if 2 ^ 1024 \<le> r then Infinite
         else Num (if negative then - int r else int r))"

subsection \<open>The history file\<close>

text \<open>\<open>JSON.stringify(this.data)\<close>: a property whose value is \<open>undefined\<close> is left out.\<close>

definition entry_to_json :: "SessionHistoryEntry \<Rightarrow> json" where
  "entry_to_json e = JObject
     ([(''conversationId'', JString (conversationId e))]
      @ (case claudeSessionId e of None \<Rightarrow> [] | Some s \<Rightarrow> [(''claudeSessionId'', JString s)])
      @ [(''projectPath'', JString (projectPath e)),
         (''projectName'', JString (projectName e)),
         (''lastMessagePreview'', JString (lastMessagePreview e)),
         (''createdAt'', JString (createdAt e)),
         (''lastActivity'', JString (lastActivity e))])"

definition data_to_json :: "(int \<times> SessionHistoryEntry list) list \<Rightarrow> json" where
  "data_to_json d = JObject
     [(''sessions'',
       JObject (map (\<lambda>(chatId, history).
                       (number_to_string chatId, JArray (map entry_to_json history))) d))]"

text \<open>\<open>save\<close>: a failed write is caught and logged, and nothing is written.\<close>

definition save :: "filesystem \<Rightarrow> state \<Rightarrow> state" where
  "save fs st = (if writable fs then st\<lparr>history_file := Document (data_to_json (data st))\<rparr> else st)"

text \<open>The Zod schemas. \<open>z.string()\<close>, \<open>z.string().optional()\<close>, \<open>z.object\<close> (unknown keys are
  dropped), \<open>z.array\<close>, \<open>z.record\<close>; \<open>None\<close> is a failed \<open>safeParse\<close>.\<close>

definition required_string :: "(string \<times> json) list \<Rightarrow> string \<Rightarrow> string option" where
  "required_string kvs k = (case map_of kvs k of Some (JString s) \<Rightarrow> Some s | _ \<Rightarrow> None)"

definition optional_string :: "(string \<times> json) list \<Rightarrow> string \<Rightarrow> string option option" where
  "optional_string kvs k =
     (case map_of kvs k of None \<Rightarrow> Some None | Some (JString s) \<Rightarrow> Some (Some s) | _ \<Rightarrow> None)"

definition sessionHistoryEntrySchema :: "json \<Rightarrow> SessionHistoryEntry option" where
  "sessionHistoryEntrySchema j =
     (case j of
        JObject kvs \<Rightarrow>
          (case (required_string kvs ''conversationId'', optional_string kvs ''claudeSessionId'',
                 required_string kvs ''projectPath'', required_string kvs ''projectName'',
                 required_string kvs ''lastMessagePreview'', required_string kvs ''createdAt'',
                 required_string kvs ''lastActivity'') of
             (Some cid, Some csid, Some pp, Some pn, Some lmp, Some ca, Some la) \<Rightarrow>
               Some \<lparr>conversationId = cid, claudeSessionId = csid, projectPath = pp,
                     projectName = pn, lastMessagePreview = lmp, createdAt = ca,
                     lastActivity = la\<rparr>
           | _ \<Rightarrow> None)
      | _ \<Rightarrow> None)"

definition entry_array_schema :: "json \<Rightarrow> SessionHistoryEntry list option" where
  "entry_array_schema j =
     (case j of JArray xs \<Rightarrow> those (map sessionHistoryEntrySchema xs) | _ \<Rightarrow> None)"

definition sessionHistoryDataSchema ::
    "json \<Rightarrow> (string \<times> SessionHistoryEntry list) list option" where
  "sessionHistoryDataSchema j =
     (case j of
        JObject doc \<Rightarrow>
          (case map_of doc ''sessions'' of
             Some (JObject kvs) \<Rightarrow>
               those (map (\<lambda>(k, v). map_option (Pair k) (entry_array_schema v)) kvs)
           | _ \<Rightarrow> None)
      | _ \<Rightarrow> None)"

text \<open>The loop of \<open>load\<close> over \<open>Object.entries(result.data.sessions)\<close>. A key that
  \<open>parseInt\<close> reads as \<open>NaN\<close> is skipped. A key that it reads as \<open>Infinity\<close> is filed by
  JavaScript under the property \<^verbatim>\<open>Infinity\<close>, which no call with an integer chat id reads
  or writes and which the next \<open>load\<close> skips as \<open>NaN\<close>; the history of the model, keyed by
  integers, does not hold it.\<close>

definition load_entries ::
    "(string \<times> SessionHistoryEntry list) list \<Rightarrow> (int \<times> SessionHistoryEntry list) list" where
  "load_entries kvs =
     fold (\<lambda>(key, value) d.
             (case parseInt key of
                NaN \<Rightarrow> d
              | Infinite \<Rightarrow> d
              | Num chatId \<Rightarrow> AList.update chatId value d))
          kvs []"

text \<open>\<open>load\<close>: no file leaves the history as it is; a file that cannot be read or parsed,
  or that fails the schema, empties it.\<close>

definition load :: "state \<Rightarrow> state" where
  "load st =
     (case history_file st of
        Missing \<Rightarrow> st
      | Unparseable \<Rightarrow> st\<lparr>data := []\<rparr>
      | Document j \<Rightarrow>
          (case sessionHistoryDataSchema j of
             Some kvs \<Rightarrow> st\<lparr>data := load_entries kvs\<rparr>
           | None \<Rightarrow> st\<lparr>data := []\<rparr>))"

subsection \<open>The history store\<close>

text \<open>\<open>this.data.sessions[chatId]\<close>.\<close>

definition chat_history :: "state \<Rightarrow> int \<Rightarrow> SessionHistoryEntry list option" where
  "chat_history st chatId = map_of (data st) chatId"

text \<open>\<open>saveSession\<close>. The clock is read for \<open>createdAt\<close> only when the conversation is
  new, then for \<open>lastActivity\<close>; a list longer than the cap is replaced by its first 20
  entries.\<close>

definition saveSession ::
    "runtime \<Rightarrow> filesystem \<Rightarrow> int \<Rightarrow> string \<Rightarrow> string \<Rightarrow> string \<Rightarrow> string option
      \<Rightarrow> state \<Rightarrow> state" where
  "saveSession rt fs chatId convId path preview csid st =
     (let history = (case chat_history st chatId of None \<Rightarrow> [] | Some h \<Rightarrow> h);
          existingIndex = findIndex (\<lambda>entry. conversationId entry = convId) history;
          existingEntry = map_option (\<lambda>i. history ! i) existingIndex;
          (created, st1) =
            (case existingEntry of Some e \<Rightarrow> (createdAt e, st) | None \<Rightarrow> read_clock rt st);
          (activity, st2) = read_clock rt st1;
          entry = \<lparr>conversationId = convId,
                   claudeSessionId =
                     (case csid of
                        Some x \<Rightarrow> Some x
                      | None \<Rightarrow> (case existingEntry of Some e \<Rightarrow> claudeSessionId e | None \<Rightarrow> None)),
                   projectPath = path,
                   projectName = basename path,
                   lastMessagePreview = take 100 preview,
                   createdAt = created,
                   lastActivity = activity\<rparr>;
          history' = (case existingIndex of Some i \<Rightarrow> history[i := entry] | None \<Rightarrow> entry # history);
          history'' = (if length history' > MAX_HISTORY_PER_CHAT
                       then take MAX_HISTORY_PER_CHAT history' else history')
      in save fs (st2\<lparr>data := AList.update chatId history'' (data st2)\<rparr>))"

definition getLastSession :: "state \<Rightarrow> int \<Rightarrow> SessionHistoryEntry option" where
  "getLastSession st chatId =
     (case chat_history st chatId of None \<Rightarrow> None | Some [] \<Rightarrow> None | Some (e # _) \<Rightarrow> Some e)"

definition getSessionByConversationId :: "state \<Rightarrow> int \<Rightarrow> string \<Rightarrow> SessionHistoryEntry option" where
  "getSessionByConversationId st chatId convId =
     find_entry (\<lambda>entry. conversationId entry = convId)
       (case chat_history st chatId of None \<Rightarrow> [] | Some h \<Rightarrow> h)"

text \<open>\<open>updateLastMessage\<close> and \<open>updateClaudeSessionId\<close> change the first entry of the
  conversation where it stands, and do nothing (not even save) when there is none.\<close>

definition updateLastMessage ::
    "runtime \<Rightarrow> filesystem \<Rightarrow> int \<Rightarrow> string \<Rightarrow> string \<Rightarrow> state \<Rightarrow> state" where
  "updateLastMessage rt fs chatId convId preview st =
     (case chat_history st chatId of
        None \<Rightarrow> st
      | Some history \<Rightarrow>
          (case findIndex (\<lambda>e. conversationId e = convId) history of
             None \<Rightarrow> st
           | Some i \<Rightarrow>
               (let (now, st1) = read_clock rt st;
                    entry = (history ! i)\<lparr>lastMessagePreview := take 100 preview,
                                           lastActivity := now\<rparr>
                in save fs (st1\<lparr>data := AList.update chatId (history[i := entry]) (data st1)\<rparr>))))"

definition updateClaudeSessionId ::
    "runtime \<Rightarrow> filesystem \<Rightarrow> int \<Rightarrow> string \<Rightarrow> string \<Rightarrow> state \<Rightarrow> state" where
  "updateClaudeSessionId rt fs chatId convId csid st =
     (case chat_history st chatId of
        None \<Rightarrow> st
      | Some history \<Rightarrow>
          (case findIndex (\<lambda>e. conversationId e = convId) history of
             None \<Rightarrow> st
           | Some i \<Rightarrow>
               (let (now, st1) = read_clock rt st;
                    entry = (history ! i)\<lparr>claudeSessionId := Some csid, lastActivity := now\<rparr>
                in save fs (st1\<lparr>data := AList.update chatId (history[i := entry]) (data st1)\<rparr>))))"

definition clearHistory :: "filesystem \<Rightarrow> int \<Rightarrow> state \<Rightarrow> state" where
  "clearHistory fs chatId st = save fs (st\<lparr>data := AList.delete chatId (data st)\<rparr>)"

subsection \<open>The path resolver\<close>

definition homePrefixes :: "string list" where
  "homePrefixes = [''/Users/'', ''/home/'']"

text \<open>The loop over \<open>homePrefixes\<close>; \<open>Some\<close> is its early return.\<close>

fun remap_loop :: "filesystem \<Rightarrow> string \<Rightarrow> string list \<Rightarrow> string option" where
  "remap_loop fs storedPath [] = None"
| "remap_loop fs storedPath (prefix # prefixes) =
     (if startsWith storedPath prefix
      then (let rest = drop (length prefix) storedPath;
                slashIdx = findIndex (\<lambda>c. c = CHR ''/'') rest;
                remapped = (case slashIdx of
                              None \<Rightarrow> homedir fs
                            | Some i \<Rightarrow> homedir fs @ drop i rest)
            in if existsSync fs remapped then Some remapped
               else remap_loop fs storedPath prefixes)
      else remap_loop fs storedPath prefixes)"

definition resolveWorkingDirectory :: "filesystem \<Rightarrow> string \<Rightarrow> string" where
  "resolveWorkingDirectory fs storedPath =
     (if existsSync fs storedPath then storedPath
      else (case remap_loop fs storedPath homePrefixes of
              Some remapped \<Rightarrow> remapped
            | None \<Rightarrow> homedir fs))"

text \<open>The resolver in the words of its specification: a stored path under one of the two
  home prefixes is remapped by dropping the prefix and the user name after it, and putting
  what remains behind the current home directory.\<close>

definition has_home_prefix :: "string \<Rightarrow> bool" where
  "has_home_prefix p = (startsWith p ''/Users/'' \<or> startsWith p ''/home/'')"

definition remapped_path :: "filesystem \<Rightarrow> string \<Rightarrow> string" where
  "remapped_path fs p =
     (let rest = (if startsWith p ''/Users/'' then drop (length ''/Users/'') p
                  else drop (length ''/home/'') p)
      in homedir fs @ dropWhile (\<lambda>c. c \<noteq> CHR ''/'') rest)"

subsection \<open>The session manager\<close>

text \<open>One read of the clock, as \<open>new Date()\<close>.\<close>

definition read_date :: "runtime \<Rightarrow> state \<Rightarrow> Date \<times> state" where
  "read_date rt st = (DateOf (now_iso rt (ticks st)), st\<lparr>ticks := Suc (ticks st)\<rparr>)"

text \<open>\<open>generateConversationId\<close> reads \<open>Date.now()\<close>, then \<open>Math.random()\<close>, of which it
  keeps seven digits in base 36.\<close>

definition generateConversationId :: "runtime \<Rightarrow> state \<Rightarrow> string \<times> state" where
  "generateConversationId rt st =
     (''conv_'' @ number_to_string (now_ms rt (ticks st)) @ ''_'' @ random36 rt (Suc (ticks st)),
      st\<lparr>ticks := Suc (Suc (ticks st))\<rparr>)"

definition getSession :: "state \<Rightarrow> int \<Rightarrow> Session option" where
  "getSession st chatId = sessions st chatId"

text \<open>\<open>conversationId || this.generateConversationId()\<close>: an empty string is falsy.\<close>

definition createSession ::
    "runtime \<Rightarrow> filesystem \<Rightarrow> int \<Rightarrow> string \<Rightarrow> string option \<Rightarrow> state \<Rightarrow> Session \<times> state" where
  "createSession rt fs chatId directory convIdOpt st =
     (let resolved = resolveWorkingDirectory fs directory;
          (convId, st1) =
            (case convIdOpt of
               Some c \<Rightarrow> if c \<noteq> [] then (c, st) else generateConversationId rt st
             | None \<Rightarrow> generateConversationId rt st);
          (created, st2) = read_date rt st1;
          (activity, st3) = read_date rt st2;
          session = \<lparr>session_conversationId = convId, session_claudeSessionId = None,
                     workingDirectory = resolved, session_createdAt = created,
                     session_lastActivity = activity\<rparr>;
          st4 = st3\<lparr>sessions := (sessions st3)(chatId \<mapsto> session)\<rparr>
      in (session, saveSession rt fs chatId convId resolved [] None st4))"

definition updateActivity ::
    "runtime \<Rightarrow> filesystem \<Rightarrow> int \<Rightarrow> string option \<Rightarrow> state \<Rightarrow> state" where
  "updateActivity rt fs chatId messagePreview st =
     (case sessions st chatId of
        None \<Rightarrow> st
      | Some session \<Rightarrow>
          (let (now, st1) = read_date rt st;
               st2 = st1\<lparr>sessions :=
                        (sessions st1)(chatId \<mapsto> session\<lparr>session_lastActivity := now\<rparr>)\<rparr>
           in (case messagePreview of
                 Some p \<Rightarrow>
                   if p \<noteq> []
                   then updateLastMessage rt fs chatId (session_conversationId session) p st2
                   else st2
               | None \<Rightarrow> st2)))"

definition setWorkingDirectory ::
    "runtime \<Rightarrow> filesystem \<Rightarrow> int \<Rightarrow> string \<Rightarrow> state \<Rightarrow> Session \<times> state" where
  "setWorkingDirectory rt fs chatId directory st =
     (case sessions st chatId of
        Some existing \<Rightarrow>
          (let (now, st1) = read_date rt st;
               existing' = existing\<lparr>workingDirectory := directory, session_lastActivity := now\<rparr>;
               st2 = st1\<lparr>sessions := (sessions st1)(chatId \<mapsto> existing')\<rparr>
           in (existing',
               saveSession rt fs chatId (session_conversationId existing') directory []
                 (session_claudeSessionId existing') st2))
      | None \<Rightarrow> createSession rt fs chatId directory None st)"

definition clearSession :: "int \<Rightarrow> state \<Rightarrow> state" where
  "clearSession chatId st = st\<lparr>sessions := (sessions st)(chatId := None)\<rparr>"

definition resumeSession ::
    "runtime \<Rightarrow> filesystem \<Rightarrow> int \<Rightarrow> string \<Rightarrow> state \<Rightarrow> Session option \<times> state" where
  "resumeSession rt fs chatId convId st =
     (case getSessionByConversationId st chatId convId of
        None \<Rightarrow> (None, st)
      | Some historyEntry \<Rightarrow>
          (let resolvedPath = resolveWorkingDirectory fs (projectPath historyEntry);
               (activity, st1) = read_date rt st;
               session = \<lparr>session_conversationId = conversationId historyEntry,
                          session_claudeSessionId = claudeSessionId historyEntry,
                          workingDirectory = resolvedPath,
                          session_createdAt = DateOf (createdAt historyEntry),
                          session_lastActivity = activity\<rparr>;
               st2 = st1\<lparr>sessions := (sessions st1)(chatId \<mapsto> session)\<rparr>
           in (Some session,
               saveSession rt fs chatId convId resolvedPath (lastMessagePreview historyEntry)
                 (claudeSessionId historyEntry) st2)))"

definition resumeLastSession ::
    "runtime \<Rightarrow> filesystem \<Rightarrow> int \<Rightarrow> state \<Rightarrow> Session option \<times> state" where
  "resumeLastSession rt fs chatId st =
     (case getLastSession st chatId of
        None \<Rightarrow> (None, st)
      | Some lastEntry \<Rightarrow> resumeSession rt fs chatId (conversationId lastEntry) st)"

definition setClaudeSessionId ::
    "runtime \<Rightarrow> filesystem \<Rightarrow> int \<Rightarrow> string \<Rightarrow> state \<Rightarrow> state" where
  "setClaudeSessionId rt fs chatId csid st =
     (case sessions st chatId of
        None \<Rightarrow> st
      | Some session \<Rightarrow>
          (let (now, st1) = read_date rt st;
               session' = session\<lparr>session_claudeSessionId := Some csid,
                                   session_lastActivity := now\<rparr>;
               st2 = st1\<lparr>sessions := (sessions st1)(chatId \<mapsto> session')\<rparr>
           in updateClaudeSessionId rt fs chatId (session_conversationId session') csid st2))"

subsection \<open>Sequences of public operations\<close>

text \<open>The operations that change the state: four of the history store, seven of the session
  manager. The remaining public operations only read it.\<close>

datatype call =
    SaveSession int string string string "string option"
  | UpdateLastMessage int string string
  | UpdateClaudeSessionId int string string
  | ClearHistory int
  | CreateSession int string "string option"
  | UpdateActivity int "string option"
  | SetWorkingDirectory int string
  | ClearSession int
  | ResumeSession int string
  | ResumeLastSession int
  | SetClaudeSessionId int string

fun step :: "runtime \<Rightarrow> filesystem \<Rightarrow> call \<Rightarrow> state \<Rightarrow> state" where
  "step rt fs (SaveSession c convId path preview csid) st = saveSession rt fs c convId path preview csid st"
| "step rt fs (UpdateLastMessage c convId preview) st = updateLastMessage rt fs c convId preview st"
| "step rt fs (UpdateClaudeSessionId c convId csid) st = updateClaudeSessionId rt fs c convId csid st"
| "step rt fs (ClearHistory c) st = clearHistory fs c st"
| "step rt fs (CreateSession c directory convId) st = snd (createSession rt fs c directory convId st)"
| "step rt fs (UpdateActivity c preview) st = updateActivity rt fs c preview st"
| "step rt fs (SetWorkingDirectory c directory) st = snd (setWorkingDirectory rt fs c directory st)"
| "step rt fs (ClearSession c) st = clearSession c st"
| "step rt fs (ResumeSession c convId) st = snd (resumeSession rt fs c convId st)"
| "step rt fs (ResumeLastSession c) st = snd (resumeLastSession rt fs c st)"
| "step rt fs (SetClaudeSessionId c csid) st = setClaudeSessionId rt fs c csid st"

fun run :: "runtime \<Rightarrow> (filesystem \<times> call) list \<Rightarrow> state \<Rightarrow> state" where
  "run rt [] st = st"
| "run rt ((fs, c) # calls) st = run rt calls (step rt fs c st)"

fun is_manager_call :: "call \<Rightarrow> bool" where
  "is_manager_call (SaveSession c convId path preview csid) = False"
| "is_manager_call (UpdateLastMessage c convId preview) = False"
| "is_manager_call (UpdateClaudeSessionId c convId csid) = False"
| "is_manager_call (ClearHistory c) = False"
| "is_manager_call _ = True"

fun call_chat :: "call \<Rightarrow> int" where
  "call_chat (SaveSession c convId path preview csid) = c"
| "call_chat (UpdateLastMessage c convId preview) = c"
| "call_chat (UpdateClaudeSessionId c convId csid) = c"
| "call_chat (ClearHistory c) = c"
| "call_chat (CreateSession c directory convId) = c"
| "call_chat (UpdateActivity c preview) = c"
| "call_chat (SetWorkingDirectory c directory) = c"
| "call_chat (ClearSession c) = c"
| "call_chat (ResumeSession c convId) = c"
| "call_chat (ResumeLastSession c) = c"
| "call_chat (SetClaudeSessionId c csid) = c"

subsection \<open>Notions used in the statements\<close>

text \<open>The history of a chat as the store's readers see it:
  \<open>this.data.sessions[chatId] || []\<close>.\<close>

definition history_of :: "state \<Rightarrow> int \<Rightarrow> SessionHistoryEntry list" where
  "history_of st chatId = (case chat_history st chatId of None \<Rightarrow> [] | Some h \<Rightarrow> h)"

text \<open>The entry that \<open>saveSession\<close> builds, given the history \<open>h\<close> it finds.\<close>

definition upserted ::
    "runtime \<Rightarrow> state \<Rightarrow> SessionHistoryEntry list \<Rightarrow> string \<Rightarrow> string \<Rightarrow> string \<Rightarrow> string option
      \<Rightarrow> SessionHistoryEntry" where
  "upserted rt st h convId path preview csid =
     (case findIndex (\<lambda>e. conversationId e = convId) h of
        Some i \<Rightarrow>
          \<lparr>conversationId = convId,
            claudeSessionId = (case csid of Some x \<Rightarrow> Some x | None \<Rightarrow> claudeSessionId (h ! i)),
            projectPath = path, projectName = basename path,
            lastMessagePreview = take 100 preview,
            createdAt = createdAt (h ! i), lastActivity = now_iso rt (ticks st)\<rparr>
      | None \<Rightarrow>
          \<lparr>conversationId = convId, claudeSessionId = csid,
            projectPath = path, projectName = basename path,
            lastMessagePreview = take 100 preview,
            createdAt = now_iso rt (ticks st), lastActivity = now_iso rt (Suc (ticks st))\<rparr>)"

text \<open>An environment for the examples: a machine whose user is bob, on which
  \<^verbatim>\<open>/home/bob\<close> and \<^verbatim>\<open>/home/bob/proj\<close> exist, and a clock that stands still.\<close>

definition example_runtime :: runtime where
  "example_runtime =
     \<lparr>now_iso = (\<lambda>k. ''2026-01-01T00:00:00.000Z''), now_ms = (\<lambda>k. 1767225600000),
      random36 = (\<lambda>k. ''abc1234'')\<rparr>"

definition example_fs :: filesystem where
  "example_fs =
     \<lparr>existsSync = (\<lambda>p. p = ''/home/bob/proj'' \<or> p = ''/home/bob''), homedir = ''/home/bob'',
      writable = True\<rparr>"

text \<open>The live session that \<open>resumeSession\<close> builds from the history entry \<open>e\<close>.\<close>

definition resumed :: "runtime \<Rightarrow> filesystem \<Rightarrow> state \<Rightarrow> SessionHistoryEntry \<Rightarrow> Session" where
  "resumed rt fs st e =
     \<lparr>session_conversationId = conversationId e, session_claudeSessionId = claudeSessionId e,
      workingDirectory = resolveWorkingDirectory fs (projectPath e),
      session_createdAt = DateOf (createdAt e),
      session_lastActivity = DateOf (now_iso rt (ticks st))\<rparr>"

text \<open>A store for the examples: chat 42 with two conversations, \<open>convB\<close> saved after
  \<open>convA\<close>.\<close>

definition example_state :: state where
  "example_state =
     saveSession example_runtime example_fs 42 ''convB'' ''/home/bob'' ''hello'' None
       (saveSession example_runtime example_fs 42 ''convA'' ''/Users/alice/proj'' [] (Some ''sid-1'')
          initial_state)"

definition example_entry_A :: SessionHistoryEntry where
  "example_entry_A =
     \<lparr>conversationId = ''convA'', claudeSessionId = Some ''sid-1'',
      projectPath = ''/Users/alice/proj'', projectName = ''proj'', lastMessagePreview = [],
      createdAt = ''2026-01-01T00:00:00.000Z'', lastActivity = ''2026-01-01T00:00:00.000Z''\<rparr>"

definition example_entry_B :: SessionHistoryEntry where
  "example_entry_B =
     \<lparr>conversationId = ''convB'', claudeSessionId = None,
      projectPath = ''/home/bob'', projectName = ''bob'', lastMessagePreview = ''hello'',
      createdAt = ''2026-01-01T00:00:00.000Z'', lastActivity = ''2026-01-01T00:00:00.000Z''\<rparr>"

text \<open>A state for the examples in which chat 42 has a live session and chat 7 has none.\<close>

definition example_live :: state where
  "example_live =
     snd (createSession example_runtime example_fs 42 ''/home/bob'' (Some ''convL'') initial_state)"

text \<open>Every list of the store is within the cap.\<close>

definition within_cap :: "state \<Rightarrow> bool" where
  "within_cap st =
     list_all (\<lambda>(chatId, history). length history \<le> MAX_HISTORY_PER_CHAT) (data st)"

text \<open>A store for the examples in which chat 42 holds 20 conversations.\<close>

definition example_full :: state where
  "example_full =
     \<lparr>sessions = Map.empty,
      data = [(42, map (\<lambda>i. example_entry_A\<lparr>conversationId := i\<rparr>)
                     [''c20'', ''c19'', ''c18'', ''c17'', ''c16'', ''c15'', ''c14'', ''c13'', ''c12'',
                      ''c11'', ''c10'', ''c09'', ''c08'', ''c07'', ''c06'', ''c05'', ''c04'', ''c03'',
                      ''c02'', ''c01''])],
      history_file = Missing, ticks = 40\<rparr>"

text \<open>Every live session has its conversation in the history of its chat.\<close>

definition live_in_history :: "state \<Rightarrow> bool" where
  "live_in_history st =
     (\<forall>c s. sessions st c = Some s \<longrightarrow>
        session_conversationId s \<in> conversationId ` set (history_of st c))"

text \<open>A sequence of session-manager calls for the examples.\<close>

definition example_calls :: "(filesystem \<times> call) list" where
  "example_calls =
     [(example_fs, CreateSession 42 ''/home/bob'' (Some ''convL'')),
      (example_fs, UpdateActivity 42 (Some ''hello'')),
      (example_fs, CreateSession 7 ''/Users/alice/proj'' None),
      (example_fs, SetWorkingDirectory 42 ''/srv'')]"

text \<open>A history is ordered by creation time, newest first.\<close>

definition newest_first :: "SessionHistoryEntry list \<Rightarrow> bool" where
  "newest_first h = sorted_wrt (\<lambda>a b. createdAt b \<le> createdAt a) h"

text \<open>A history is ordered by insertion, newest first: the entries were created at clock
  readings number \<open>ks\<close>, a strictly decreasing list.\<close>

definition inserted_at :: "runtime \<Rightarrow> SessionHistoryEntry list \<Rightarrow> nat list \<Rightarrow> bool" where
  "inserted_at rt h ks =
     (map createdAt h = map (now_iso rt) ks \<and> sorted_wrt (\<lambda>i j. j < i) ks)"

text \<open>The clock never runs backwards (ISO-8601 strings of the years 0000 to 9999 are
  ordered in time as they are ordered as strings).\<close>

definition clock_monotone :: "runtime \<Rightarrow> bool" where
  "clock_monotone rt = (\<forall>i j. i \<le> j \<longrightarrow> now_iso rt i \<le> now_iso rt j)"

text \<open>The invariant behind the order: every list is ordered by insertion, and was filled at
  clock readings that have been made.\<close>

definition inserted_in_order :: "runtime \<Rightarrow> state \<Rightarrow> bool" where
  "inserted_in_order rt st =
     (\<forall>c. \<exists>ks. inserted_at rt (history_of st c) ks \<and> (\<forall>k \<in> set ks. k < ticks st))"

text \<open>A clock for the examples that advances by five seconds after two readings.\<close>

definition ticking_runtime :: runtime where
  "ticking_runtime =
     \<lparr>now_iso = (\<lambda>k. if k < 2 then ''2026-01-01T00:00:00.000Z'' else ''2026-01-01T00:00:05.000Z''),
      now_ms = (\<lambda>k. if k < 2 then 1767225600000 else 1767225605000),
      random36 = (\<lambda>k. ''abc1234'')\<rparr>"

text \<open>Two conversations saved in turn, then the first one saved again.\<close>

definition ticking_calls :: "(filesystem \<times> call) list" where
  "ticking_calls =
     [(example_fs, SaveSession 42 ''convA'' ''/home/bob'' [] None),
      (example_fs, SaveSession 42 ''convB'' ''/home/bob/proj'' [] None),
      (example_fs, SaveSession 42 ''convA'' ''/home/bob'' ''back again'' None)]"

text \<open>How \<open>save\<close> names the chats in the file.\<close>

definition file_keys ::
    "(int \<times> SessionHistoryEntry list) list \<Rightarrow> (string \<times> SessionHistoryEntry list) list" where
  "file_keys d = map (\<lambda>(chatId, history). (number_to_string chatId, history)) d"

text \<open>A store of safe chat ids: no chat is listed twice, and every chat id is a safe
  integer (\<open>Number.isSafeInteger\<close>), of a magnitude below \<open>2^53\<close>.\<close>

definition storable :: "state \<Rightarrow> bool" where
  "storable st =
     (distinct (map fst (data st)) \<and> list_all (\<lambda>(chatId, history). \<bar>chatId\<bar> < 2 ^ 53) (data st))"

text \<open>The restart of the process: the constructor of \<open>SessionHistory\<close> starts from an
  empty history and loads the file; the live cache starts empty.\<close>

definition restart :: "state \<Rightarrow> state" where
  "restart st =
     load \<lparr>sessions = Map.empty, data = [], history_file = history_file st, ticks = ticks st\<rparr>"

text \<open>A chat whose id is \<open>10^21\<close>, with one conversation.\<close>

definition example_huge :: state where
  "example_huge =
     run example_runtime
       [(example_fs, SaveSession 1000000000000000000000 ''convA'' ''/home/bob'' [] None)]
       initial_state"

section \<open>The path resolver\<close>

lemma findIndex_drop:
  "(case findIndex P xs of None \<Rightarrow> h | Some i \<Rightarrow> h @ drop i xs) = h @ dropWhile (\<lambda>c. \<not> P c) xs"
  by (induction xs) (auto split: option.splits)

lemma startsWith_append: "startsWith p q \<Longrightarrow> p = q @ drop (length q) p"
  by (metis append_take_drop_id startsWith_def)

lemma prefixes_exclusive: "startsWith p ''/Users/'' \<Longrightarrow> \<not> startsWith p ''/home/''"
proof
  assume u: "startsWith p ''/Users/''" and h: "startsWith p ''/home/''"
  from u obtain r where "p = ''/Users/'' @ r" by (blast dest: startsWith_append)
  with h show False by (simp add: startsWith_def)
qed

lemma remap_loop_spec:
  "remap_loop fs p homePrefixes =
     (if has_home_prefix p \<and> existsSync fs (remapped_path fs p)
      then Some (remapped_path fs p) else None)"
proof (cases "startsWith p ''/Users/''")
  case True
  then have "\<not> startsWith p ''/home/''" by (rule prefixes_exclusive)
  with True show ?thesis
    by (simp add: homePrefixes_def has_home_prefix_def remapped_path_def Let_def findIndex_drop)
next
  case False
  then show ?thesis
    by (simp add: homePrefixes_def has_home_prefix_def remapped_path_def Let_def findIndex_drop)
qed

text \<open>
  Claim C4. For every stored path and every file system, \<open>resolveWorkingDirectory\<close>
  returns the stored path when it exists; otherwise, when the path starts with
  \<^verbatim>\<open>/Users/\<close> or \<^verbatim>\<open>/home/\<close> and the path obtained by putting what follows the user name
  behind the current home directory exists, that remapped path; otherwise the current
  home directory. The function is total: it returns a path on every input, there is no
  failing branch.
\<close>

theorem resolveWorkingDirectory_cases:
  "resolveWorkingDirectory fs storedPath =
     (if existsSync fs storedPath then storedPath
      else if has_home_prefix storedPath \<and> existsSync fs (remapped_path fs storedPath)
           then remapped_path fs storedPath
      else homedir fs)"
  by (simp add: resolveWorkingDirectory_def remap_loop_spec)

theorem resolveWorkingDirectory_cases_witness:
  "resolveWorkingDirectory example_fs ''/home/bob/proj'' = ''/home/bob/proj'' \<and>
   resolveWorkingDirectory example_fs ''/Users/alice/proj'' = ''/home/bob/proj'' \<and>
   resolveWorkingDirectory example_fs ''/Users/alice/gone'' = ''/home/bob'' \<and>
   resolveWorkingDirectory example_fs ''/srv/data'' = ''/home/bob''"
  using resolveWorkingDirectory_cases [of example_fs "''/home/bob/proj''"]
    resolveWorkingDirectory_cases [of example_fs "''/Users/alice/proj''"]
    resolveWorkingDirectory_cases [of example_fs "''/Users/alice/gone''"]
    resolveWorkingDirectory_cases [of example_fs "''/srv/data''"]
  by (simp add: example_fs_def has_home_prefix_def remapped_path_def startsWith_def)

section \<open>The history store\<close>

lemma findIndex_None_iff: "findIndex P xs = None \<longleftrightarrow> (\<forall>x\<in>set xs. \<not> P x)"
  by (induction xs) auto

lemma findIndex_Some:
  "findIndex P xs = Some i \<Longrightarrow> i < length xs \<and> P (xs ! i) \<and> (\<forall>j<i. \<not> P (xs ! j))"
proof (induction xs arbitrary: i)
  case Nil
  then show ?case by simp
next
  case (Cons x xs)
  show ?case
  proof (cases "P x")
    case True
    with Cons.prems show ?thesis by simp
  next
    case False
    with Cons.prems obtain k where k: "findIndex P xs = Some k" "i = Suc k" by auto
    from Cons.IH [OF k(1)] False k(2) show ?thesis
      by (auto simp: nth_Cons split: nat.splits)
  qed
qed

lemma findIndex_present: "x \<in> set xs \<Longrightarrow> P x \<Longrightarrow> \<exists>i. findIndex P xs = Some i"
  using findIndex_None_iff [of P xs] by (cases "findIndex P xs") auto

lemma findIndex_update_same:
  "findIndex P xs = Some i \<Longrightarrow> P y \<Longrightarrow> findIndex P (xs[i := y]) = Some i"
proof (induction xs arbitrary: i)
  case Nil
  then show ?case by simp
next
  case (Cons x xs)
  then show ?case by (cases "P x") auto
qed

lemma findIndex_take:
  "findIndex P xs = Some i \<Longrightarrow> i < n \<Longrightarrow> findIndex P (take n xs) = Some i"
proof (induction xs arbitrary: i n)
  case Nil
  then show ?case by simp
next
  case (Cons x xs)
  then show ?case by (cases n; cases "P x") auto
qed

lemma save_fields [simp]:
  "data (save fs st) = data st" "sessions (save fs st) = sessions st" "ticks (save fs st) = ticks st"
  by (simp_all add: save_def)

lemma chat_history_save [simp]: "chat_history (save fs st) = chat_history st"
  by (rule ext) (simp add: chat_history_def)

lemma chat_history_frame [simp]:
  "chat_history (st\<lparr>sessions := s\<rparr>) = chat_history st"
  "chat_history (st\<lparr>ticks := t\<rparr>) = chat_history st"
  "chat_history (st\<lparr>history_file := f\<rparr>) = chat_history st"
  by (rule ext, simp add: chat_history_def)+

lemma history_of_frame [simp]:
  "history_of (save fs st) = history_of st"
  "history_of (st\<lparr>sessions := s\<rparr>) = history_of st"
  "history_of (st\<lparr>ticks := t\<rparr>) = history_of st"
  "history_of (st\<lparr>history_file := f\<rparr>) = history_of st"
  by (rule ext, simp add: history_of_def)+

lemma saveSession_chat_history:
  "chat_history (saveSession rt fs c convId path preview csid st) c' =
     (if c' = c
      then Some (take MAX_HISTORY_PER_CHAT
             (case findIndex (\<lambda>e. conversationId e = convId) (history_of st c) of
                Some i \<Rightarrow> (history_of st c)[i := upserted rt st (history_of st c) convId path preview csid]
              | None \<Rightarrow> upserted rt st (history_of st c) convId path preview csid # history_of st c))
      else chat_history st c')"
  by (auto simp: saveSession_def Let_def read_clock_def upserted_def history_of_def
        chat_history_def update_conv' split: option.splits prod.splits)

lemma saveSession_history_of:
  "history_of (saveSession rt fs c convId path preview csid st) c' =
     (if c' = c
      then take MAX_HISTORY_PER_CHAT
             (case findIndex (\<lambda>e. conversationId e = convId) (history_of st c) of
                Some i \<Rightarrow> (history_of st c)[i := upserted rt st (history_of st c) convId path preview csid]
              | None \<Rightarrow> upserted rt st (history_of st c) convId path preview csid # history_of st c)
      else history_of st c')"
  using saveSession_chat_history [of rt fs c convId path preview csid st c']
  by (simp add: history_of_def [of "saveSession rt fs c convId path preview csid st"]
        history_of_def [of st c'])

lemma saveSession_sessions [simp]:
  "sessions (saveSession rt fs c convId path preview csid st) = sessions st"
  by (auto simp: saveSession_def Let_def read_clock_def split: option.splits prod.splits)

lemma upserted_conversationId [simp]:
  "conversationId (upserted rt st h convId path preview csid) = convId"
  by (simp add: upserted_def split: option.splits)

lemma upserted_projectPath [simp]:
  "projectPath (upserted rt st h convId path preview csid) = path"
  by (simp add: upserted_def split: option.splits)

lemma initial_history [simp]: "history_of initial_state c = []"
  by (simp add: history_of_def chat_history_def initial_state_def)

lemma saveSession_ticks_eq:
  "ticks (saveSession rt fs c convId path preview csid st) =
     (case findIndex (\<lambda>e. conversationId e = convId) (history_of st c) of
        Some i \<Rightarrow> Suc (ticks st) | None \<Rightarrow> Suc (Suc (ticks st)))"
  by (auto simp: saveSession_def Let_def read_clock_def history_of_def
      split: option.splits prod.splits)

lemma example_history:
  "history_of example_state 42 = [example_entry_B, example_entry_A]"
proof -
  let ?st1 = "saveSession example_runtime example_fs 42 ''convA'' ''/Users/alice/proj'' [] (Some ''sid-1'') initial_state"
  have h1: "history_of ?st1 42 = [example_entry_A]"
    by (simp add: saveSession_history_of upserted_def example_runtime_def MAX_HISTORY_PER_CHAT_def
        example_entry_A_def basename_def)
  show ?thesis
    unfolding example_state_def
    by (simp add: saveSession_history_of h1 upserted_def example_runtime_def MAX_HISTORY_PER_CHAT_def
        example_entry_A_def example_entry_B_def basename_def)
qed

lemma example_cap: "length (history_of example_state 42) \<le> MAX_HISTORY_PER_CHAT"
  by (simp add: example_history MAX_HISTORY_PER_CHAT_def)

lemma example_ticks: "ticks example_state = 4"
proof -
  let ?st1 = "saveSession example_runtime example_fs 42 ''convA'' ''/Users/alice/proj'' [] (Some ''sid-1'') initial_state"
  have h1: "history_of ?st1 42 = [example_entry_A]"
    by (simp add: saveSession_history_of upserted_def example_runtime_def MAX_HISTORY_PER_CHAT_def
        example_entry_A_def basename_def)
  show ?thesis
    unfolding example_state_def
    by (simp add: saveSession_ticks_eq h1 example_entry_A_def) (simp add: initial_state_def)
qed

text \<open>
  Claim C3. In a store within its cap of 20 entries per chat, \<open>saveSession\<close> with a
  conversation id that the chat's history \<open>h\<close> already holds replaces the entry where it
  stands, at the first index \<open>i\<close> that holds the id. The new history \<open>h'\<close> is \<open>h\<close> with
  position \<open>i\<close> set to the entry of the call: the conversation id, the path and its base
  name, the first 100 characters of the preview, the \<open>claudeSessionId\<close> of the call, or
  that of the old entry when the call gives none, the \<open>createdAt\<close> of the old entry, and the
  time of the call as \<open>lastActivity\<close>. So every other position is unchanged and the length
  is unchanged. With a conversation id that \<open>h\<close> does not hold, \<open>h'\<close> is the new entry of
  the call, created and active at the time of the call, put at the head of \<open>h\<close> (and the
  list cut at the cap).
\<close>

theorem saveSession_upsert:
  assumes h_def: "h = history_of st c"
    and h'_def: "h' = history_of (saveSession rt fs c convId path preview csid st) c"
    and cap: "length h \<le> MAX_HISTORY_PER_CHAT"
  shows "(convId \<in> conversationId ` set h \<longrightarrow>
           (\<exists>i < length h. conversationId (h ! i) = convId \<and>
              (\<forall>j < i. conversationId (h ! j) \<noteq> convId) \<and>
              h' = h[i := \<lparr>conversationId = convId,
                           claudeSessionId =
                             (case csid of Some x \<Rightarrow> Some x | None \<Rightarrow> claudeSessionId (h ! i)),
                           projectPath = path,
                           projectName = basename path,
                           lastMessagePreview = take 100 preview,
                           createdAt = createdAt (h ! i),
                           lastActivity = now_iso rt (ticks st)\<rparr>] \<and>
              h' = h[i := h' ! i] \<and>
              length h' = length h \<and>
              conversationId (h' ! i) = convId \<and>
              createdAt (h' ! i) = createdAt (h ! i) \<and>
              (csid = None \<longrightarrow> claudeSessionId (h' ! i) = claudeSessionId (h ! i)))) \<and>
         (convId \<notin> conversationId ` set h \<longrightarrow>
           h' = take MAX_HISTORY_PER_CHAT
                  (\<lparr>conversationId = convId,
                    claudeSessionId = csid,
                    projectPath = path,
                    projectName = basename path,
                    lastMessagePreview = take 100 preview,
                    createdAt = now_iso rt (ticks st),
                    lastActivity = now_iso rt (Suc (ticks st))\<rparr> # h))"
proof (cases "findIndex (\<lambda>e. conversationId e = convId) h")
  case None
  then have absent: "convId \<notin> conversationId ` set h"
    by (auto simp: findIndex_None_iff)
  from None have "h' = take MAX_HISTORY_PER_CHAT (upserted rt st h convId path preview csid # h)"
    by (simp add: h'_def h_def saveSession_history_of)
  with None absent show ?thesis by (simp add: upserted_def)
next
  case (Some i)
  from findIndex_Some [OF Some] have i: "i < length h" "conversationId (h ! i) = convId"
    and first: "\<forall>j < i. conversationId (h ! j) \<noteq> convId" by auto
  from i have present: "convId \<in> conversationId ` set h" by (metis imageI nth_mem)
  let ?e = "\<lparr>conversationId = convId,
             claudeSessionId = (case csid of Some x \<Rightarrow> Some x | None \<Rightarrow> claudeSessionId (h ! i)),
             projectPath = path, projectName = basename path,
             lastMessagePreview = take 100 preview,
             createdAt = createdAt (h ! i), lastActivity = now_iso rt (ticks st)\<rparr>"
  from Some have e: "upserted rt st h convId path preview csid = ?e"
    by (simp add: upserted_def)
  from Some cap have "h' = h[i := upserted rt st h convId path preview csid]"
    by (simp add: h'_def h_def saveSession_history_of)
  then have h': "h' = h[i := ?e]" by (simp only: e)
  with i have nth: "h' ! i = ?e" by simp
  have len: "length h' = length h" by (simp add: h')
  have same: "h' = h[i := h' ! i]" unfolding nth by (rule h')
  have kept: "conversationId (h' ! i) = convId" "createdAt (h' ! i) = createdAt (h ! i)"
    "csid = None \<longrightarrow> claudeSessionId (h' ! i) = claudeSessionId (h ! i)"
    by (simp_all add: nth)
  from i first h' same len kept have
    "\<exists>i < length h. conversationId (h ! i) = convId \<and>
        (\<forall>j < i. conversationId (h ! j) \<noteq> convId) \<and>
        h' = h[i := \<lparr>conversationId = convId,
                     claudeSessionId =
                       (case csid of Some x \<Rightarrow> Some x | None \<Rightarrow> claudeSessionId (h ! i)),
                     projectPath = path,
                     projectName = basename path,
                     lastMessagePreview = take 100 preview,
                     createdAt = createdAt (h ! i),
                     lastActivity = now_iso rt (ticks st)\<rparr>] \<and>
        h' = h[i := h' ! i] \<and>
        length h' = length h \<and>
        conversationId (h' ! i) = convId \<and>
        createdAt (h' ! i) = createdAt (h ! i) \<and>
        (csid = None \<longrightarrow> claudeSessionId (h' ! i) = claudeSessionId (h ! i))"
    by blast
  with present show ?thesis by blast
qed

theorem saveSession_upsert_witness:
  "length (history_of example_state 42) \<le> MAX_HISTORY_PER_CHAT \<and>
   history_of example_state 42 = [example_entry_B, example_entry_A] \<and>
   ''convA'' \<in> conversationId ` set (history_of example_state 42) \<and>
   history_of (saveSession ticking_runtime example_fs 42 ''convA'' ''/srv/app'' ''hi'' None
      example_state) 42 =
     [example_entry_B,
      \<lparr>conversationId = ''convA'', claudeSessionId = Some ''sid-1'',
       projectPath = ''/srv/app'', projectName = ''app'', lastMessagePreview = ''hi'',
       createdAt = ''2026-01-01T00:00:00.000Z'', lastActivity = ''2026-01-01T00:00:05.000Z''\<rparr>] \<and>
   history_of (saveSession ticking_runtime example_fs 42 ''convA'' ''/srv/app'' ''hi'' (Some ''sid-2'')
      example_state) 42 =
     [example_entry_B,
      \<lparr>conversationId = ''convA'', claudeSessionId = Some ''sid-2'',
       projectPath = ''/srv/app'', projectName = ''app'', lastMessagePreview = ''hi'',
       createdAt = ''2026-01-01T00:00:00.000Z'', lastActivity = ''2026-01-01T00:00:05.000Z''\<rparr>] \<and>
   ''convC'' \<notin> conversationId ` set (history_of example_state 42) \<and>
   history_of (saveSession ticking_runtime example_fs 42 ''convC'' ''/srv/app'' ''hi'' None
      example_state) 42 =
     [\<lparr>conversationId = ''convC'', claudeSessionId = None,
       projectPath = ''/srv/app'', projectName = ''app'', lastMessagePreview = ''hi'',
       createdAt = ''2026-01-01T00:00:05.000Z'', lastActivity = ''2026-01-01T00:00:05.000Z''\<rparr>,
      example_entry_B, example_entry_A]"
proof -
  let ?h = "history_of example_state 42"
  have present: "''convA'' \<in> conversationId ` set ?h"
    by (simp add: example_history example_entry_A_def)
  have absent: "''convC'' \<notin> conversationId ` set ?h"
    by (simp add: example_history example_entry_A_def example_entry_B_def)
  have now: "now_iso ticking_runtime 4 = ''2026-01-01T00:00:05.000Z''"
    "now_iso ticking_runtime 5 = ''2026-01-01T00:00:05.000Z''"
    by (simp_all add: ticking_runtime_def)
  have name: "basename ''/srv/app'' = ''app''" by (simp add: basename_def)
  have replaced: "history_of (saveSession ticking_runtime example_fs 42 ''convA'' ''/srv/app'' ''hi''
        csid example_state) 42 =
     [example_entry_B,
      \<lparr>conversationId = ''convA'',
       claudeSessionId = (case csid of Some x \<Rightarrow> Some x | None \<Rightarrow> Some ''sid-1''),
       projectPath = ''/srv/app'', projectName = ''app'', lastMessagePreview = ''hi'',
       createdAt = ''2026-01-01T00:00:00.000Z'', lastActivity = ''2026-01-01T00:00:05.000Z''\<rparr>]"
    for csid
  proof -
    from saveSession_upsert [where rt = ticking_runtime and fs = example_fs
        and convId = "''convA''" and path = "''/srv/app''" and preview = "''hi''" and csid = csid,
        OF refl refl example_cap] present
    obtain i where i: "i < length ?h" "conversationId (?h ! i) = ''convA''"
      and eq: "history_of (saveSession ticking_runtime example_fs 42 ''convA'' ''/srv/app'' ''hi''
                 csid example_state) 42 =
               ?h[i := \<lparr>conversationId = ''convA'',
                         claudeSessionId =
                           (case csid of Some x \<Rightarrow> Some x | None \<Rightarrow> claudeSessionId (?h ! i)),
                         projectPath = ''/srv/app'',
                         projectName = basename ''/srv/app'',
                         lastMessagePreview = take 100 ''hi'',
                         createdAt = createdAt (?h ! i),
                         lastActivity = now_iso ticking_runtime (ticks example_state)\<rparr>]"
      by blast
    from i have "i = 1"
      by (auto simp: example_history example_entry_B_def less_Suc_eq)
    with eq show ?thesis
      by (cases csid) (simp_all add: example_history example_ticks now name example_entry_A_def)
  qed
  from saveSession_upsert [where rt = ticking_runtime and fs = example_fs
      and convId = "''convC''" and path = "''/srv/app''" and preview = "''hi''" and csid = None,
      OF refl refl example_cap] absent
  have inserted: "history_of (saveSession ticking_runtime example_fs 42 ''convC'' ''/srv/app'' ''hi''
        None example_state) 42 =
     [\<lparr>conversationId = ''convC'', claudeSessionId = None,
       projectPath = ''/srv/app'', projectName = ''app'', lastMessagePreview = ''hi'',
       createdAt = ''2026-01-01T00:00:05.000Z'', lastActivity = ''2026-01-01T00:00:05.000Z''\<rparr>,
      example_entry_B, example_entry_A]"
    by (simp add: example_history example_ticks now name MAX_HISTORY_PER_CHAT_def)
  from example_cap example_history present replaced [of None] replaced [of "Some ''sid-2''"]
    absent inserted
  show ?thesis by simp
qed

lemma getSessionByConversationId_history_of:
  "getSessionByConversationId st c convId =
     map_option (\<lambda>i. history_of st c ! i) (findIndex (\<lambda>e. conversationId e = convId) (history_of st c))"
  by (simp add: getSessionByConversationId_def find_entry_def history_of_def)

lemma getSessionByConversationId_None_iff:
  "getSessionByConversationId st c convId = None \<longleftrightarrow> convId \<notin> conversationId ` set (history_of st c)"
  by (auto simp: getSessionByConversationId_history_of findIndex_None_iff)

lemma getSessionByConversationId_SomeD:
  assumes "getSessionByConversationId st c convId = Some e"
  shows "\<exists>i. findIndex (\<lambda>e. conversationId e = convId) (history_of st c) = Some i \<and>
             i < length (history_of st c) \<and> e = history_of st c ! i \<and> conversationId e = convId"
  using assms findIndex_Some [of "\<lambda>e. conversationId e = convId" "history_of st c"]
  by (auto simp: getSessionByConversationId_history_of)

lemma getLastSession_history_of:
  "getLastSession st c = (case history_of st c of [] \<Rightarrow> None | e # _ \<Rightarrow> Some e)"
  by (simp add: getLastSession_def history_of_def split: option.splits list.splits)

text \<open>
  Claim C6. When the chat's history holds no entry with the conversation id,
  \<open>resumeSession\<close> returns nothing and the whole state (live cache, history, history file,
  clock reads) is the one before the call.
\<close>

theorem resumeSession_unknown:
  assumes "convId \<notin> conversationId ` set (history_of st c)"
  shows "resumeSession rt fs c convId st = (None, st)"
  using assms by (simp add: resumeSession_def getSessionByConversationId_None_iff [symmetric])

theorem resumeSession_unknown_witness:
  "''convC'' \<notin> conversationId ` set (history_of example_state 42) \<and>
   resumeSession example_runtime example_fs 42 ''convC'' example_state = (None, example_state)"
proof -
  have absent: "''convC'' \<notin> conversationId ` set (history_of example_state 42)"
    by (simp add: example_history example_entry_A_def example_entry_B_def)
  from absent resumeSession_unknown [OF absent] show ?thesis by blast
qed

lemma resumeSession_found:
  assumes "getSessionByConversationId st c convId = Some e"
  shows "resumeSession rt fs c convId st =
           (Some (resumed rt fs st e),
            saveSession rt fs c convId (resolveWorkingDirectory fs (projectPath e))
              (lastMessagePreview e) (claudeSessionId e)
              (st\<lparr>ticks := Suc (ticks st), sessions := (sessions st)(c \<mapsto> resumed rt fs st e)\<rparr>))"
  using assms by (simp add: resumeSession_def Let_def read_date_def resumed_def)

lemma resumeSession_history_of:
  assumes found: "findIndex (\<lambda>e. conversationId e = convId) (history_of st c) = Some i"
    and cap: "length (history_of st c) \<le> MAX_HISTORY_PER_CHAT"
  shows "\<exists>e'. history_of (snd (resumeSession rt fs c convId st)) c = (history_of st c)[i := e'] \<and>
           conversationId e' = convId \<and>
           projectPath e' = resolveWorkingDirectory fs (projectPath (history_of st c ! i)) \<and>
           createdAt e' = createdAt (history_of st c ! i) \<and>
           claudeSessionId e' = claudeSessionId (history_of st c ! i)"
proof -
  let ?h = "history_of st c"
  let ?e = "?h ! i"
  from found have g: "getSessionByConversationId st c convId = Some ?e"
    by (simp add: getSessionByConversationId_history_of)
  let ?st2 = "st\<lparr>ticks := Suc (ticks st), sessions := (sessions st)(c \<mapsto> resumed rt fs st ?e)\<rparr>"
  let ?e' = "upserted rt ?st2 ?h convId (resolveWorkingDirectory fs (projectPath ?e))
               (lastMessagePreview ?e) (claudeSessionId ?e)"
  have "history_of (snd (resumeSession rt fs c convId st)) c = ?h[i := ?e']"
    using found cap by (simp add: resumeSession_found [OF g] saveSession_history_of)
  moreover have "createdAt ?e' = createdAt ?e" "claudeSessionId ?e' = claudeSessionId ?e"
    using found by (simp_all add: upserted_def split: option.splits)
  ultimately show ?thesis by (intro exI [of _ ?e']) simp
qed

lemma example_lookup_A: "getSessionByConversationId example_state 42 ''convA'' = Some example_entry_A"
  by (simp add: getSessionByConversationId_history_of example_history example_entry_A_def
        example_entry_B_def)

text \<open>
  Claim C7. When the store (within its cap) holds the entry \<open>e\<close> for the conversation id,
  \<open>resumeSession\<close> returns a live session with the conversation id and the
  \<open>claudeSessionId\<close> of \<open>e\<close>, created at \<open>new Date(e.createdAt)\<close>, last active at the clock
  reading of the call, working in the resolved \<open>projectPath\<close> of \<open>e\<close>; the session is the
  one the cache holds afterwards, and the history entry of the conversation then carries the
  resolved path.
\<close>

theorem resumeSession_known:
  assumes found: "getSessionByConversationId st c convId = Some e"
    and cap: "length (history_of st c) \<le> MAX_HISTORY_PER_CHAT"
    and res: "resumeSession rt fs c convId st = (r, st')"
  shows "\<exists>s e'. r = Some s \<and>
           session_conversationId s = convId \<and> conversationId e = convId \<and>
           session_claudeSessionId s = claudeSessionId e \<and>
           session_createdAt s = DateOf (createdAt e) \<and>
           session_lastActivity s = DateOf (now_iso rt (ticks st)) \<and>
           workingDirectory s = resolveWorkingDirectory fs (projectPath e) \<and>
           getSession st' c = Some s \<and>
           getSessionByConversationId st' c convId = Some e' \<and>
           projectPath e' = resolveWorkingDirectory fs (projectPath e)"
proof -
  from getSessionByConversationId_SomeD [OF found] obtain i where
    i: "findIndex (\<lambda>e. conversationId e = convId) (history_of st c) = Some i"
       "i < length (history_of st c)" "e = history_of st c ! i" "conversationId e = convId"
    by blast
  from res have r: "r = Some (resumed rt fs st e)"
    by (auto simp: resumeSession_found [OF found])
  from res have st': "st' = snd (resumeSession rt fs c convId st)"
    by simp
  from resumeSession_history_of [OF i(1) cap, of rt fs] obtain e' where
    e': "history_of st' c = (history_of st c)[i := e']" "conversationId e' = convId"
        "projectPath e' = resolveWorkingDirectory fs (projectPath e)"
    using st' i(3) by auto
  have "findIndex (\<lambda>e. conversationId e = convId) (history_of st' c) = Some i"
    using e' i(1) by (simp add: findIndex_update_same)
  then have get: "getSessionByConversationId st' c convId = Some e'"
    using e'(1) i(2) by (simp add: getSessionByConversationId_history_of)
  have live: "getSession st' c = Some (resumed rt fs st e)"
    by (simp add: st' resumeSession_found [OF found] getSession_def)
  show ?thesis
    using r get live e'(3) i(4) by (simp add: resumed_def)
qed

theorem resumeSession_known_witness:
  "getSessionByConversationId example_state 42 ''convA'' = Some example_entry_A \<and>
   length (history_of example_state 42) \<le> MAX_HISTORY_PER_CHAT \<and>
   (\<exists>s e'. fst (resumeSession example_runtime example_fs 42 ''convA'' example_state) = Some s \<and>
      session_conversationId s = ''convA'' \<and>
      session_claudeSessionId s = Some ''sid-1'' \<and>
      session_createdAt s = DateOf ''2026-01-01T00:00:00.000Z'' \<and>
      workingDirectory s = ''/home/bob/proj'' \<and>
      getSession (snd (resumeSession example_runtime example_fs 42 ''convA'' example_state)) 42 = Some s \<and>
      getSessionByConversationId
        (snd (resumeSession example_runtime example_fs 42 ''convA'' example_state)) 42 ''convA'' = Some e' \<and>
      projectPath e' = ''/home/bob/proj'')"
proof -
  have res: "resumeSession example_runtime example_fs 42 ''convA'' example_state =
      (fst (resumeSession example_runtime example_fs 42 ''convA'' example_state),
       snd (resumeSession example_runtime example_fs 42 ''convA'' example_state))"
    by simp
  have path: "resolveWorkingDirectory example_fs (projectPath example_entry_A) = ''/home/bob/proj''"
    by (simp add: resolveWorkingDirectory_def example_fs_def example_entry_A_def homePrefixes_def
        startsWith_def)
  from resumeSession_known [OF example_lookup_A example_cap res] path
  have "\<exists>s e'. fst (resumeSession example_runtime example_fs 42 ''convA'' example_state) = Some s \<and>
      session_conversationId s = ''convA'' \<and>
      session_claudeSessionId s = Some ''sid-1'' \<and>
      session_createdAt s = DateOf ''2026-01-01T00:00:00.000Z'' \<and>
      workingDirectory s = ''/home/bob/proj'' \<and>
      getSession (snd (resumeSession example_runtime example_fs 42 ''convA'' example_state)) 42 = Some s \<and>
      getSessionByConversationId
        (snd (resumeSession example_runtime example_fs 42 ''convA'' example_state)) 42 ''convA'' = Some e' \<and>
      projectPath e' = ''/home/bob/proj''"
    by (auto simp: example_entry_A_def)
  with example_lookup_A example_cap show ?thesis by blast
qed

section \<open>The session manager\<close>

lemma saveSession_lookup:
  assumes cap: "length (history_of st c) \<le> MAX_HISTORY_PER_CHAT"
  shows "\<exists>e. getSessionByConversationId (saveSession rt fs c convId path preview csid st) c convId = Some e \<and>
             projectPath e = path \<and> conversationId e = convId"
proof (cases "findIndex (\<lambda>e. conversationId e = convId) (history_of st c)")
  case None
  then show ?thesis
    by (simp add: getSessionByConversationId_history_of saveSession_history_of
        MAX_HISTORY_PER_CHAT_def)
next
  case (Some i)
  from findIndex_Some [OF Some] have "i < length (history_of st c)" by simp
  with Some cap show ?thesis
    by (simp add: getSessionByConversationId_history_of saveSession_history_of
        findIndex_update_same)
qed

lemma createSession_workingDirectory:
  "workingDirectory (fst (createSession rt fs c directory convIdOpt st)) = resolveWorkingDirectory fs directory"
  by (simp add: createSession_def Let_def read_date_def generateConversationId_def
      split: option.splits prod.splits)

lemma setWorkingDirectory_live:
  assumes "sessions st c = Some existing"
  shows "setWorkingDirectory rt fs c directory st =
           (existing\<lparr>workingDirectory := directory, session_lastActivity := DateOf (now_iso rt (ticks st))\<rparr>,
            saveSession rt fs c (session_conversationId existing) directory []
              (session_claudeSessionId existing)
              (st\<lparr>ticks := Suc (ticks st),
                  sessions := (sessions st)(c \<mapsto> existing\<lparr>workingDirectory := directory,
                     session_lastActivity := DateOf (now_iso rt (ticks st))\<rparr>)\<rparr>))"
  using assms by (simp add: setWorkingDirectory_def Let_def read_date_def)

text \<open>
  Claim C8. \<open>setWorkingDirectory\<close>, in a store within its cap. When the chat has a live
  session, the session returned is that session with \<open>workingDirectory\<close> set to the
  directory as given (the resolver is not applied) and a fresh \<open>lastActivity\<close>; it is the
  session the cache holds afterwards, and the history entry of its conversation carries the
  directory as given. When the chat has no live session, the call is
  \<open>createSession(chatId, directory)\<close>, result and state, so the working directory is the
  resolved one.
\<close>

theorem setWorkingDirectory_cases:
  assumes res: "setWorkingDirectory rt fs c directory st = (s, st')"
    and cap: "length (history_of st c) \<le> MAX_HISTORY_PER_CHAT"
  shows "(\<forall>existing. getSession st c = Some existing \<longrightarrow>
            s = existing\<lparr>workingDirectory := directory,
                          session_lastActivity := DateOf (now_iso rt (ticks st))\<rparr> \<and>
            getSession st' c = Some s \<and>
            (\<exists>e. getSessionByConversationId st' c (session_conversationId existing) = Some e \<and>
                 projectPath e = directory)) \<and>
         (getSession st c = None \<longrightarrow>
            (s, st') = createSession rt fs c directory None st \<and>
            workingDirectory s = resolveWorkingDirectory fs directory)"
proof (intro conjI allI impI)
  fix existing
  assume live: "getSession st c = Some existing"
  then have l: "sessions st c = Some existing" by (simp add: getSession_def)
  let ?s = "existing\<lparr>workingDirectory := directory,
                        session_lastActivity := DateOf (now_iso rt (ticks st))\<rparr>"
  let ?st2 = "st\<lparr>ticks := Suc (ticks st), sessions := (sessions st)(c \<mapsto> ?s)\<rparr>"
  have eq: "(s, st') = (?s, saveSession rt fs c (session_conversationId existing) directory []
                      (session_claudeSessionId existing) ?st2)"
    unfolding res [symmetric] by (rule setWorkingDirectory_live [OF l])
  then have s: "s = ?s"
    and st': "st' = saveSession rt fs c (session_conversationId existing) directory []
                      (session_claudeSessionId existing) ?st2"
    by (simp_all only: prod.inject)
  show "s = ?s" by (rule s)
  show "getSession st' c = Some s" by (simp add: st' s getSession_def)
  have "length (history_of ?st2 c) \<le> MAX_HISTORY_PER_CHAT" using cap by simp
  from saveSession_lookup [OF this] show
    "\<exists>e. getSessionByConversationId st' c (session_conversationId existing) = Some e \<and>
         projectPath e = directory"
    unfolding st' by blast
next
  assume none: "getSession st c = None"
  with res show "(s, st') = createSession rt fs c directory None st"
    by (simp add: setWorkingDirectory_def getSession_def)
  then have "s = fst (createSession rt fs c directory None st)" by (metis fst_conv)
  then show "workingDirectory s = resolveWorkingDirectory fs directory"
    by (simp add: createSession_workingDirectory)
qed

lemma example_live_session:
  "sessions example_live 42 =
     Some \<lparr>session_conversationId = ''convL'', session_claudeSessionId = None,
           workingDirectory = ''/home/bob'',
           session_createdAt = DateOf ''2026-01-01T00:00:00.000Z'',
           session_lastActivity = DateOf ''2026-01-01T00:00:00.000Z''\<rparr>"
  "sessions example_live 7 = None"
  by (simp_all add: example_live_def createSession_def Let_def read_date_def
      resolveWorkingDirectory_def example_fs_def example_runtime_def initial_state_def)

lemma example_live_history:
  "length (history_of example_live 42) \<le> MAX_HISTORY_PER_CHAT"
  "length (history_of example_live 7) \<le> MAX_HISTORY_PER_CHAT"
  by (simp_all add: example_live_def createSession_def Let_def read_date_def
      saveSession_history_of MAX_HISTORY_PER_CHAT_def)

theorem setWorkingDirectory_cases_witness:
  "length (history_of example_live 42) \<le> MAX_HISTORY_PER_CHAT \<and>
   getSession example_live 42 \<noteq> None \<and>
   resolveWorkingDirectory example_fs ''/Users/alice/proj'' = ''/home/bob/proj'' \<and>
   workingDirectory (fst (setWorkingDirectory example_runtime example_fs 42 ''/Users/alice/proj''
      example_live)) = ''/Users/alice/proj'' \<and>
   (\<exists>e. getSessionByConversationId
          (snd (setWorkingDirectory example_runtime example_fs 42 ''/Users/alice/proj'' example_live))
          42 ''convL'' = Some e \<and>
        projectPath e = ''/Users/alice/proj'') \<and>
   length (history_of example_live 7) \<le> MAX_HISTORY_PER_CHAT \<and>
   getSession example_live 7 = None \<and>
   setWorkingDirectory example_runtime example_fs 7 ''/Users/alice/proj'' example_live =
     createSession example_runtime example_fs 7 ''/Users/alice/proj'' None example_live \<and>
   workingDirectory (fst (setWorkingDirectory example_runtime example_fs 7 ''/Users/alice/proj''
      example_live)) = ''/home/bob/proj''"
proof -
  have path: "resolveWorkingDirectory example_fs ''/Users/alice/proj'' = ''/home/bob/proj''"
    by (simp add: resolveWorkingDirectory_def example_fs_def homePrefixes_def startsWith_def)
  have live: "getSession example_live 42 =
     Some \<lparr>session_conversationId = ''convL'', session_claudeSessionId = None,
           workingDirectory = ''/home/bob'',
           session_createdAt = DateOf ''2026-01-01T00:00:00.000Z'',
           session_lastActivity = DateOf ''2026-01-01T00:00:00.000Z''\<rparr>"
    and none: "getSession example_live 7 = None"
    by (simp_all add: getSession_def example_live_session)
  have a: "workingDirectory (fst (setWorkingDirectory example_runtime example_fs 42 ''/Users/alice/proj''
      example_live)) = ''/Users/alice/proj'' \<and>
   (\<exists>e. getSessionByConversationId
          (snd (setWorkingDirectory example_runtime example_fs 42 ''/Users/alice/proj'' example_live))
          42 ''convL'' = Some e \<and>
        projectPath e = ''/Users/alice/proj'')"
    using setWorkingDirectory_cases [OF surjective_pairing example_live_history(1),
        of example_runtime example_fs "''/Users/alice/proj''"] live
    by simp
  have b: "setWorkingDirectory example_runtime example_fs 7 ''/Users/alice/proj'' example_live =
     createSession example_runtime example_fs 7 ''/Users/alice/proj'' None example_live \<and>
   workingDirectory (fst (setWorkingDirectory example_runtime example_fs 7 ''/Users/alice/proj''
      example_live)) = ''/home/bob/proj''"
    using setWorkingDirectory_cases [OF surjective_pairing example_live_history(2),
        of example_runtime example_fs "''/Users/alice/proj''"] none path
    by (metis surjective_pairing)
  from live have "getSession example_live 42 \<noteq> None" by simp
  with example_live_history path a b none show ?thesis by blast
qed




section \<open>The cap on a chat's history\<close>

lemma list_all_update: "list_all P al \<Longrightarrow> P (k, v) \<Longrightarrow> list_all P (AList.update k v al)"
  by (induction al) auto

lemma list_all_delete: "list_all P al \<Longrightarrow> list_all P (AList.delete k al)"
  by (induction al) auto

lemma within_cap_history_of:
  assumes "within_cap st"
  shows "length (history_of st c) \<le> MAX_HISTORY_PER_CHAT"
proof (cases "map_of (data st) c")
  case None
  then show ?thesis by (simp add: history_of_def chat_history_def)
next
  case (Some h)
  then have "(c, h) \<in> set (data st)" by (rule map_of_SomeD)
  with assms have "length h \<le> MAX_HISTORY_PER_CHAT"
    by (auto simp: within_cap_def list_all_iff)
  with Some show ?thesis by (simp add: history_of_def chat_history_def)
qed

lemma within_cap_frame [simp]:
  "within_cap (save fs st) = within_cap st"
  "within_cap (st\<lparr>sessions := s\<rparr>) = within_cap st"
  "within_cap (st\<lparr>ticks := t\<rparr>) = within_cap st"
  by (simp_all add: within_cap_def)

lemma saveSession_data:
  "data (saveSession rt fs c convId path preview csid st) =
     AList.update c
       (take MAX_HISTORY_PER_CHAT
          (case findIndex (\<lambda>e. conversationId e = convId) (history_of st c) of
             Some i \<Rightarrow> (history_of st c)[i := upserted rt st (history_of st c) convId path preview csid]
           | None \<Rightarrow> upserted rt st (history_of st c) convId path preview csid # history_of st c))
       (data st)"
  by (auto simp: saveSession_def Let_def read_clock_def upserted_def history_of_def
        chat_history_def split: option.splits prod.splits)

lemma within_cap_saveSession:
  "within_cap st \<Longrightarrow> within_cap (saveSession rt fs c convId path preview csid st)"
  by (simp add: within_cap_def saveSession_data list_all_update)

lemma updateLastMessage_data:
  "data (updateLastMessage rt fs c convId preview st) =
     (case chat_history st c of
        None \<Rightarrow> data st
      | Some h \<Rightarrow>
          (case findIndex (\<lambda>e. conversationId e = convId) h of
             None \<Rightarrow> data st
           | Some i \<Rightarrow>
               AList.update c
                 (h[i := (h ! i)\<lparr>lastMessagePreview := take 100 preview,
                                  lastActivity := now_iso rt (ticks st)\<rparr>])
                 (data st)))"
  by (simp add: updateLastMessage_def Let_def read_clock_def split: option.splits)

lemma updateClaudeSessionId_data:
  "data (updateClaudeSessionId rt fs c convId csid st) =
     (case chat_history st c of
        None \<Rightarrow> data st
      | Some h \<Rightarrow>
          (case findIndex (\<lambda>e. conversationId e = convId) h of
             None \<Rightarrow> data st
           | Some i \<Rightarrow>
               AList.update c
                 (h[i := (h ! i)\<lparr>claudeSessionId := Some csid,
                                  lastActivity := now_iso rt (ticks st)\<rparr>])
                 (data st)))"
  by (simp add: updateClaudeSessionId_def Let_def read_clock_def split: option.splits)

lemma clearHistory_data: "data (clearHistory fs c st) = AList.delete c (data st)"
  by (simp add: clearHistory_def)

lemma chat_history_cap:
  "within_cap st \<Longrightarrow> chat_history st c = Some h \<Longrightarrow> length h \<le> MAX_HISTORY_PER_CHAT"
  using within_cap_history_of [of st c] by (simp add: history_of_def)

lemma within_cap_update:
  "within_cap st \<Longrightarrow> length h \<le> MAX_HISTORY_PER_CHAT \<Longrightarrow>
   data st' = AList.update c h (data st) \<Longrightarrow> within_cap st'"
  by (simp add: within_cap_def list_all_update)

lemma within_cap_same: "within_cap st \<Longrightarrow> data st' = data st \<Longrightarrow> within_cap st'"
  by (simp add: within_cap_def)

lemma within_cap_updateLastMessage:
  assumes "within_cap st"
  shows "within_cap (updateLastMessage rt fs c convId preview st)"
proof (cases "chat_history st c")
  case None
  then show ?thesis using assms by (simp add: updateLastMessage_def)
next
  case (Some h)
  with assms have len: "length h \<le> MAX_HISTORY_PER_CHAT" by (rule chat_history_cap)
  show ?thesis
  proof (cases "findIndex (\<lambda>e. conversationId e = convId) h")
    case None
    with Some assms show ?thesis by (simp add: updateLastMessage_def)
  next
    case (Some i)
    show ?thesis
      by (rule within_cap_update [OF assms, where c = c
            and h = "h[i := (h ! i)\<lparr>lastMessagePreview := take 100 preview,
                                   lastActivity := now_iso rt (ticks st)\<rparr>]"])
         (simp_all add: len updateLastMessage_data Some \<open>chat_history st c = Some h\<close>)
  qed
qed

lemma within_cap_updateClaudeSessionId:
  assumes "within_cap st"
  shows "within_cap (updateClaudeSessionId rt fs c convId csid st)"
proof (cases "chat_history st c")
  case None
  then show ?thesis using assms by (simp add: updateClaudeSessionId_def)
next
  case (Some h)
  with assms have len: "length h \<le> MAX_HISTORY_PER_CHAT" by (rule chat_history_cap)
  show ?thesis
  proof (cases "findIndex (\<lambda>e. conversationId e = convId) h")
    case None
    with Some assms show ?thesis by (simp add: updateClaudeSessionId_def)
  next
    case (Some i)
    show ?thesis
      by (rule within_cap_update [OF assms, where c = c
            and h = "h[i := (h ! i)\<lparr>claudeSessionId := Some csid,
                                   lastActivity := now_iso rt (ticks st)\<rparr>]"])
         (simp_all add: len updateClaudeSessionId_data Some \<open>chat_history st c = Some h\<close>)
  qed
qed

lemma within_cap_clearHistory: "within_cap st \<Longrightarrow> within_cap (clearHistory fs c st)"
  by (simp add: within_cap_def clearHistory_data list_all_delete)

lemma within_cap_step: "within_cap st \<Longrightarrow> within_cap (step rt fs call st)"
  by (cases call)
    (auto simp: within_cap_saveSession within_cap_updateLastMessage
       within_cap_updateClaudeSessionId within_cap_clearHistory
       createSession_def updateActivity_def setWorkingDirectory_def clearSession_def
       resumeSession_def resumeLastSession_def setClaudeSessionId_def
       Let_def read_date_def generateConversationId_def
       split: option.splits prod.splits)

lemma within_cap_run: "within_cap st \<Longrightarrow> within_cap (run rt calls st)"
  by (induction calls arbitrary: st) (auto simp: within_cap_step)

lemma saveSession_evicts:
  assumes full: "length (history_of st c) = MAX_HISTORY_PER_CHAT"
    and new: "convId \<notin> conversationId ` set (history_of st c)"
  shows "history_of (saveSession rt fs c convId path preview csid st) c =
           upserted rt st (history_of st c) convId path preview csid # butlast (history_of st c)"
proof -
  from new have "findIndex (\<lambda>e. conversationId e = convId) (history_of st c) = None"
    by (auto simp: findIndex_None_iff)
  then show ?thesis using full
    by (simp add: saveSession_history_of MAX_HISTORY_PER_CHAT_def butlast_conv_take)
qed

text \<open>
  Claim C5. From a store within the cap (the empty store is), after every sequence of
  public operations every chat's history has at most 20 entries. And when \<open>saveSession\<close>
  inserts a new conversation into a history of 20 entries, the result is the new entry
  followed by the old list without its last entry: the oldest entry is evicted.
\<close>

theorem history_capped:
  assumes "within_cap st"
  shows "length (history_of (run rt calls st) c) \<le> MAX_HISTORY_PER_CHAT \<and>
         (length (history_of st1 c1) = MAX_HISTORY_PER_CHAT \<and>
          convId \<notin> conversationId ` set (history_of st1 c1) \<longrightarrow>
            (\<exists>e. conversationId e = convId \<and>
               history_of (saveSession rt1 fs1 c1 convId path preview csid st1) c1 =
                 e # butlast (history_of st1 c1)))"
proof
  from assms have "within_cap (run rt calls st)" by (rule within_cap_run)
  then show "length (history_of (run rt calls st) c) \<le> MAX_HISTORY_PER_CHAT"
    by (rule within_cap_history_of)
next
  show "length (history_of st1 c1) = MAX_HISTORY_PER_CHAT \<and>
          convId \<notin> conversationId ` set (history_of st1 c1) \<longrightarrow>
            (\<exists>e. conversationId e = convId \<and>
               history_of (saveSession rt1 fs1 c1 convId path preview csid st1) c1 =
                 e # butlast (history_of st1 c1))"
    by (auto simp: saveSession_evicts)
qed

lemma within_cap_initial: "within_cap initial_state"
  by (simp add: within_cap_def initial_state_def)

theorem history_capped_witness:
  "within_cap initial_state \<and>
   length (history_of (run example_runtime
       [(example_fs, CreateSession 42 ''/home/bob'' None),
        (example_fs, CreateSession 42 ''/Users/alice/proj'' None)] initial_state) 42)
     \<le> MAX_HISTORY_PER_CHAT \<and>
   length (history_of example_full 42) = MAX_HISTORY_PER_CHAT \<and>
   ''c21'' \<notin> conversationId ` set (history_of example_full 42) \<and>
   (\<exists>e. conversationId e = ''c21'' \<and>
      history_of (saveSession example_runtime example_fs 42 ''c21'' ''/home/bob'' [] None
         example_full) 42 = e # butlast (history_of example_full 42))"
proof -
  have full: "length (history_of example_full 42) = MAX_HISTORY_PER_CHAT"
    by (simp add: history_of_def chat_history_def example_full_def MAX_HISTORY_PER_CHAT_def)
  have new: "''c21'' \<notin> conversationId ` set (history_of example_full 42)"
    by (simp add: history_of_def chat_history_def example_full_def)
  from history_capped [OF within_cap_initial, where ?st1.0 = example_full and ?c1.0 = 42
      and convId = "''c21''"] full new within_cap_initial
  show ?thesis by blast
qed

section \<open>The live session and the history\<close>

lemma saveSession_has_id:
  assumes "length (history_of st c) \<le> MAX_HISTORY_PER_CHAT"
  shows "convId \<in> conversationId ` set (history_of (saveSession rt fs c convId path preview csid st) c)"
proof -
  from saveSession_lookup [OF assms, of rt fs convId path preview csid] obtain e where
    "getSessionByConversationId (saveSession rt fs c convId path preview csid st) c convId = Some e"
    by blast
  from getSessionByConversationId_SomeD [OF this] show ?thesis
    by (metis imageI nth_mem)
qed

lemma saveSession_other_chat:
  "c' \<noteq> c \<Longrightarrow> history_of (saveSession rt fs c convId path preview csid st) c' = history_of st c'"
  by (simp add: saveSession_history_of)

lemma history_of_update_data:
  "data st' = AList.update c h (data st) \<Longrightarrow>
   history_of st' c' = (if c' = c then h else history_of st c')"
  by (simp add: history_of_def chat_history_def update_conv')

lemma history_of_same_data: "data st' = data st \<Longrightarrow> history_of st' = history_of st"
  by (rule ext) (simp add: history_of_def chat_history_def)

lemma map_update_same:
  "i < length xs \<Longrightarrow> f y = f (xs ! i) \<Longrightarrow> map f (xs[i := y]) = map f xs"
  by (simp add: map_update list_update_same_conv)

lemma updateLastMessage_ids:
  "map conversationId (history_of (updateLastMessage rt fs c convId preview st) c') =
   map conversationId (history_of st c')"
proof (cases "chat_history st c")
  case None
  then show ?thesis by (simp add: updateLastMessage_def)
next
  case (Some h)
  then have h: "history_of st c = h" by (simp add: history_of_def)
  show ?thesis
  proof (cases "findIndex (\<lambda>e. conversationId e = convId) h")
    case None
    with Some show ?thesis by (simp add: updateLastMessage_def)
  next
    case (Some i)
    from findIndex_Some [OF Some] have i: "i < length h" by simp
    have "data (updateLastMessage rt fs c convId preview st) =
            AList.update c (h[i := (h ! i)\<lparr>lastMessagePreview := take 100 preview,
                                           lastActivity := now_iso rt (ticks st)\<rparr>]) (data st)"
      by (simp add: updateLastMessage_data Some \<open>chat_history st c = Some h\<close>)
    from history_of_update_data [OF this, of c'] h i show ?thesis
      by (simp add: map_update_same)
  qed
qed

lemma updateClaudeSessionId_ids:
  "map conversationId (history_of (updateClaudeSessionId rt fs c convId csid st) c') =
   map conversationId (history_of st c')"
proof (cases "chat_history st c")
  case None
  then show ?thesis by (simp add: updateClaudeSessionId_def)
next
  case (Some h)
  then have h: "history_of st c = h" by (simp add: history_of_def)
  show ?thesis
  proof (cases "findIndex (\<lambda>e. conversationId e = convId) h")
    case None
    with Some show ?thesis by (simp add: updateClaudeSessionId_def)
  next
    case (Some i)
    from findIndex_Some [OF Some] have i: "i < length h" by simp
    have "data (updateClaudeSessionId rt fs c convId csid st) =
            AList.update c (h[i := (h ! i)\<lparr>claudeSessionId := Some csid,
                                           lastActivity := now_iso rt (ticks st)\<rparr>]) (data st)"
      by (simp add: updateClaudeSessionId_data Some \<open>chat_history st c = Some h\<close>)
    from history_of_update_data [OF this, of c'] h i show ?thesis
      by (simp add: map_update_same)
  qed
qed

lemma updateLastMessage_sessions [simp]:
  "sessions (updateLastMessage rt fs c convId preview st) = sessions st"
  by (simp add: updateLastMessage_def Let_def read_clock_def split: option.splits)

lemma updateClaudeSessionId_sessions [simp]:
  "sessions (updateClaudeSessionId rt fs c convId csid st) = sessions st"
  by (simp add: updateClaudeSessionId_def Let_def read_clock_def split: option.splits)

lemma ids_set: "conversationId ` set h = set (map conversationId h)"
  by simp

lemma live_same_ids:
  assumes "live_in_history st"
    and "sessions st' = sessions st"
    and "\<And>c. map conversationId (history_of st' c) = map conversationId (history_of st c)"
  shows "live_in_history st'"
  using assms unfolding live_in_history_def ids_set by simp

lemma live_install:
  assumes cap: "within_cap st" and live: "live_in_history st"
    and id: "session_conversationId s = convId"
  shows "live_in_history
           (saveSession rt fs c convId path preview csid
              (st\<lparr>ticks := t, sessions := (sessions st)(c \<mapsto> s)\<rparr>))"
    (is "live_in_history ?st'")
  unfolding live_in_history_def
proof (intro allI impI)
  fix c' s'
  assume a: "sessions ?st' c' = Some s'"
  show "session_conversationId s' \<in> conversationId ` set (history_of ?st' c')"
  proof (cases "c' = c")
    case True
    with a id have "session_conversationId s' = convId" by simp
    moreover have "length (history_of (st\<lparr>ticks := t, sessions := (sessions st)(c \<mapsto> s)\<rparr>) c)
                     \<le> MAX_HISTORY_PER_CHAT"
      using within_cap_history_of [OF cap, of c] by simp
    ultimately show ?thesis using True saveSession_has_id by blast
  next
    case False
    with a have "sessions st c' = Some s'" by simp
    with live have "session_conversationId s' \<in> conversationId ` set (history_of st c')"
      by (simp add: live_in_history_def)
    with False show ?thesis by (simp add: saveSession_other_chat)
  qed
qed

lemma live_touch:
  assumes live: "live_in_history st" and s: "sessions st c = Some s"
    and id: "session_conversationId s' = session_conversationId s"
  shows "live_in_history (st\<lparr>ticks := t, sessions := (sessions st)(c \<mapsto> s')\<rparr>)"
  using assms by (auto simp: live_in_history_def)

lemma live_updateLastMessage:
  "live_in_history st \<Longrightarrow> live_in_history (updateLastMessage rt fs c convId preview st)"
  by (rule live_same_ids) (simp_all add: updateLastMessage_ids)

lemma live_updateClaudeSessionId:
  "live_in_history st \<Longrightarrow> live_in_history (updateClaudeSessionId rt fs c convId csid st)"
  by (rule live_same_ids) (simp_all add: updateClaudeSessionId_ids)

lemma createSession_shape:
  "\<exists>s t. createSession rt fs c directory convIdOpt st =
           (s, saveSession rt fs c (session_conversationId s) (resolveWorkingDirectory fs directory)
                 [] None (st\<lparr>ticks := t, sessions := (sessions st)(c \<mapsto> s)\<rparr>))"
  by (auto simp: createSession_def Let_def read_date_def generateConversationId_def
      split: option.splits prod.splits)

lemma live_createSession:
  assumes "within_cap st" "live_in_history st"
  shows "live_in_history (snd (createSession rt fs c directory convIdOpt st))"
proof -
  from createSession_shape [of rt fs c directory convIdOpt st] obtain s t where
    "createSession rt fs c directory convIdOpt st =
       (s, saveSession rt fs c (session_conversationId s) (resolveWorkingDirectory fs directory)
             [] None (st\<lparr>ticks := t, sessions := (sessions st)(c \<mapsto> s)\<rparr>))"
    by blast
  then show ?thesis using live_install [OF assms refl] by simp
qed

lemma live_resumeSession:
  assumes "within_cap st" "live_in_history st"
  shows "live_in_history (snd (resumeSession rt fs c convId st))"
proof (cases "getSessionByConversationId st c convId")
  case None
  with assms show ?thesis by (simp add: resumeSession_def)
next
  case (Some e)
  from getSessionByConversationId_SomeD [OF Some] have "conversationId e = convId" by blast
  then have "session_conversationId (resumed rt fs st e) = convId" by (simp add: resumed_def)
  from live_install [OF assms this] show ?thesis
    by (simp add: resumeSession_found [OF Some])
qed

lemma live_step:
  assumes cap: "within_cap st" and live: "live_in_history st" and m: "is_manager_call call"
  shows "live_in_history (step rt fs call st)"
proof (cases call)
  case (CreateSession c directory convIdOpt)
  then show ?thesis using live_createSession [OF cap live] by simp
next
  case (UpdateActivity c preview)
  show ?thesis
  proof (cases "sessions st c")
    case None
    with UpdateActivity live show ?thesis by (simp add: updateActivity_def)
  next
    case (Some s)
    let ?st2 = "st\<lparr>ticks := Suc (ticks st),
                   sessions := (sessions st)
                     (c \<mapsto> s\<lparr>session_lastActivity := DateOf (now_iso rt (ticks st))\<rparr>)\<rparr>"
    have "live_in_history ?st2" by (rule live_touch [OF live Some]) simp
    with UpdateActivity Some show ?thesis
      by (auto simp: updateActivity_def Let_def read_date_def live_updateLastMessage
          split: option.splits)
  qed
next
  case (SetWorkingDirectory c directory)
  show ?thesis
  proof (cases "sessions st c")
    case None
    with SetWorkingDirectory show ?thesis
      using live_createSession [OF cap live] by (simp add: setWorkingDirectory_def)
  next
    case (Some s)
    with SetWorkingDirectory show ?thesis
      using live_install [OF cap live, where convId = "session_conversationId s"
          and s = "s\<lparr>workingDirectory := directory,
                       session_lastActivity := DateOf (now_iso rt (ticks st))\<rparr>"]
      by (simp add: setWorkingDirectory_live [OF Some])
  qed
next
  case (ClearSession c)
  with live show ?thesis by (auto simp: clearSession_def live_in_history_def)
next
  case (ResumeSession c convId)
  then show ?thesis using live_resumeSession [OF cap live] by simp
next
  case (ResumeLastSession c)
  then show ?thesis using live_resumeSession [OF cap live] live
    by (simp add: resumeLastSession_def split: option.splits)
next
  case (SetClaudeSessionId c csid)
  show ?thesis
  proof (cases "sessions st c")
    case None
    with SetClaudeSessionId live show ?thesis by (simp add: setClaudeSessionId_def)
  next
    case (Some s)
    let ?st2 = "st\<lparr>ticks := Suc (ticks st),
                   sessions := (sessions st)
                     (c \<mapsto> s\<lparr>session_claudeSessionId := Some csid,
                            session_lastActivity := DateOf (now_iso rt (ticks st))\<rparr>)\<rparr>"
    have "live_in_history ?st2" by (rule live_touch [OF live Some]) simp
    with SetClaudeSessionId Some show ?thesis
      by (simp add: setClaudeSessionId_def Let_def read_date_def live_updateClaudeSessionId)
  qed
qed (use m in simp_all)

lemma live_run:
  "within_cap st \<Longrightarrow> live_in_history st \<Longrightarrow>
   list_all (\<lambda>(fs, call). is_manager_call call) calls \<Longrightarrow>
   live_in_history (run rt calls st)"
proof (induction calls arbitrary: st)
  case Nil
  then show ?case by simp
next
  case (Cons a calls)
  obtain fs call where a: "a = (fs, call)" by (cases a)
  with Cons.prems have m: "is_manager_call call" by simp
  have "within_cap (step rt fs call st)" using Cons.prems(1) by (rule within_cap_step)
  moreover have "live_in_history (step rt fs call st)"
    using Cons.prems(1,2) m by (rule live_step)
  ultimately show ?case using Cons.IH Cons.prems(3) a by simp
qed

lemma live_initial: "live_in_history initial_state"
  by (simp add: live_in_history_def initial_state_def)

text \<open>
  Claim C10. After every sequence of session-manager operations from the empty state,
  when \<open>getSession\<close> returns a live session for a chat, the chat's history holds an entry
  with the session's conversation id: the cut at 20 entries never removes the entry of the
  live session.
\<close>

theorem live_session_in_history:
  assumes "list_all (\<lambda>(fs, call). is_manager_call call) calls"
    and "getSession (run rt calls initial_state) c = Some s"
  shows "session_conversationId s \<in>
           conversationId ` set (history_of (run rt calls initial_state) c)"
proof -
  from within_cap_initial live_initial assms(1)
  have "live_in_history (run rt calls initial_state)" by (rule live_run)
  with assms(2) show ?thesis by (simp add: live_in_history_def getSession_def)
qed

lemma example_calls_live:
  "getSession (run example_runtime example_calls initial_state) 42 =
     Some \<lparr>session_conversationId = ''convL'', session_claudeSessionId = None,
           workingDirectory = ''/srv'',
           session_createdAt = DateOf ''2026-01-01T00:00:00.000Z'',
           session_lastActivity = DateOf ''2026-01-01T00:00:00.000Z''\<rparr>"
  by (simp add: example_calls_def getSession_def createSession_def updateActivity_def
      setWorkingDirectory_def Let_def read_date_def generateConversationId_def
      resolveWorkingDirectory_def example_fs_def example_runtime_def initial_state_def)

theorem live_session_in_history_witness:
  "list_all (\<lambda>(fs, call). is_manager_call call) example_calls \<and>
   (\<exists>s. getSession (run example_runtime example_calls initial_state) 42 = Some s \<and>
        session_conversationId s = ''convL'') \<and>
   ''convL'' \<in> conversationId ` set (history_of (run example_runtime example_calls initial_state) 42)"
proof -
  have m: "list_all (\<lambda>(fs, call). is_manager_call call) example_calls"
    by (simp add: example_calls_def)
  from live_session_in_history [OF m example_calls_live] m example_calls_live
  show ?thesis by simp
qed

section \<open>The order of a chat's history\<close>

lemma ticking_runtime_monotone: "clock_monotone ticking_runtime"
  by (simp add: clock_monotone_def ticking_runtime_def)

lemma saveSession_ticks: "ticks st < ticks (saveSession rt fs c convId path preview csid st)"
  by (simp add: saveSession_ticks_eq split: option.splits)

lemma inserted_at_take: "inserted_at rt h ks \<Longrightarrow> inserted_at rt (take n h) (take n ks)"
  by (simp add: inserted_at_def take_map [symmetric])

lemma inserted_at_newest_first:
  assumes m: "clock_monotone rt" and i: "inserted_at rt h ks"
  shows "newest_first h"
proof -
  from i have "sorted_wrt (\<lambda>i j. j < i) ks" by (simp add: inserted_at_def)
  then have "sorted_wrt (\<lambda>i j. now_iso rt j \<le> now_iso rt i) ks"
    using m by (auto simp: clock_monotone_def elim: sorted_wrt_mono_rel [rotated])
  then have "sorted_wrt (\<lambda>a b. b \<le> a) (map (now_iso rt) ks)" by (simp add: sorted_wrt_map)
  with i have "sorted_wrt (\<lambda>a b. b \<le> a) (map createdAt h)" by (simp add: inserted_at_def)
  then show ?thesis by (simp add: newest_first_def sorted_wrt_map)
qed

lemma inserted_in_order_same_created:
  assumes k: "inserted_in_order rt st"
    and h: "\<And>c. map createdAt (history_of st' c) = map createdAt (history_of st c)"
    and t: "ticks st \<le> ticks st'"
  shows "inserted_in_order rt st'"
  unfolding inserted_in_order_def
proof
  fix c
  from k obtain ks where "inserted_at rt (history_of st c) ks" "\<forall>k \<in> set ks. k < ticks st"
    unfolding inserted_in_order_def by blast
  with h [of c] t have "inserted_at rt (history_of st' c) ks \<and> (\<forall>k \<in> set ks. k < ticks st')"
    by (auto simp: inserted_at_def)
  then show "\<exists>ks. inserted_at rt (history_of st' c) ks \<and> (\<forall>k \<in> set ks. k < ticks st')" ..
qed

lemma inserted_in_order_prelude:
  "inserted_in_order rt st \<Longrightarrow> ticks st \<le> t \<Longrightarrow>
   inserted_in_order rt (st\<lparr>ticks := t, sessions := s\<rparr>)"
  by (rule inserted_in_order_same_created [where st = st]) simp_all

lemma inserted_in_order_saveSession:
  assumes k: "inserted_in_order rt st"
  shows "inserted_in_order rt (saveSession rt fs c convId path preview csid st)"
    (is "inserted_in_order rt ?st'")
  unfolding inserted_in_order_def
proof
  fix c'
  let ?h = "history_of st c"
  let ?e = "upserted rt st ?h convId path preview csid"
  have later: "ticks st < ticks ?st'" by (rule saveSession_ticks)
  from k obtain ks' where old': "inserted_at rt (history_of st c') ks'" "\<forall>k \<in> set ks'. k < ticks st"
    unfolding inserted_in_order_def by blast
  from k obtain ks where old: "inserted_at rt ?h ks" "\<forall>k \<in> set ks. k < ticks st"
    unfolding inserted_in_order_def by blast
  show "\<exists>ks. inserted_at rt (history_of ?st' c') ks \<and> (\<forall>k \<in> set ks. k < ticks ?st')"
  proof (cases "c' = c")
    case False
    with old' later have "inserted_at rt (history_of ?st' c') ks' \<and> (\<forall>k \<in> set ks'. k < ticks ?st')"
      by (auto simp: saveSession_history_of)
    then show ?thesis ..
  next
    case True
    show ?thesis
    proof (cases "findIndex (\<lambda>e. conversationId e = convId) ?h")
      case None
      then have e: "createdAt ?e = now_iso rt (ticks st)" by (simp add: upserted_def)
      have h': "history_of ?st' c = take MAX_HISTORY_PER_CHAT (?e # ?h)"
        using None by (simp add: saveSession_history_of)
      have "inserted_at rt (?e # ?h) (ticks st # ks)"
        using old e by (simp add: inserted_at_def)
      then have 1: "inserted_at rt (history_of ?st' c) (take MAX_HISTORY_PER_CHAT (ticks st # ks))"
        unfolding h' by (rule inserted_at_take)
      have "\<forall>k \<in> set (ticks st # ks). k < ticks ?st'"
        using old(2) later by auto
      then have 2: "\<forall>k \<in> set (take MAX_HISTORY_PER_CHAT (ticks st # ks)). k < ticks ?st'"
        by (meson in_set_takeD)
      from 1 2 True show ?thesis by blast
    next
      case (Some i)
      from findIndex_Some [OF Some] have i: "i < length ?h" by simp
      from Some have e: "createdAt ?e = createdAt (?h ! i)" by (simp add: upserted_def)
      have h': "history_of ?st' c = take MAX_HISTORY_PER_CHAT (?h[i := ?e])"
        using Some by (simp add: saveSession_history_of)
      have "map createdAt (?h[i := ?e]) = map createdAt ?h"
        using i e by (simp add: map_update_same)
      with old(1) have "inserted_at rt (?h[i := ?e]) ks" by (simp add: inserted_at_def)
      then have 1: "inserted_at rt (history_of ?st' c) (take MAX_HISTORY_PER_CHAT ks)"
        unfolding h' by (rule inserted_at_take)
      have "\<forall>k \<in> set ks. k < ticks ?st'" using old(2) later by auto
      then have 2: "\<forall>k \<in> set (take MAX_HISTORY_PER_CHAT ks). k < ticks ?st'"
        by (meson in_set_takeD)
      from 1 2 True show ?thesis by blast
    qed
  qed
qed

lemma updateLastMessage_created:
  "map createdAt (history_of (updateLastMessage rt fs c convId preview st) c') =
   map createdAt (history_of st c')"
proof (cases "chat_history st c")
  case None
  then show ?thesis by (simp add: updateLastMessage_def)
next
  case (Some h)
  then have h: "history_of st c = h" by (simp add: history_of_def)
  show ?thesis
  proof (cases "findIndex (\<lambda>e. conversationId e = convId) h")
    case None
    with Some show ?thesis by (simp add: updateLastMessage_def)
  next
    case (Some i)
    from findIndex_Some [OF Some] have i: "i < length h" by simp
    have "data (updateLastMessage rt fs c convId preview st) =
            AList.update c (h[i := (h ! i)\<lparr>lastMessagePreview := take 100 preview,
                                           lastActivity := now_iso rt (ticks st)\<rparr>]) (data st)"
      by (simp add: updateLastMessage_data Some \<open>chat_history st c = Some h\<close>)
    from history_of_update_data [OF this, of c'] h i show ?thesis
      by (simp add: map_update_same)
  qed
qed

lemma updateClaudeSessionId_created:
  "map createdAt (history_of (updateClaudeSessionId rt fs c convId csid st) c') =
   map createdAt (history_of st c')"
proof (cases "chat_history st c")
  case None
  then show ?thesis by (simp add: updateClaudeSessionId_def)
next
  case (Some h)
  then have h: "history_of st c = h" by (simp add: history_of_def)
  show ?thesis
  proof (cases "findIndex (\<lambda>e. conversationId e = convId) h")
    case None
    with Some show ?thesis by (simp add: updateClaudeSessionId_def)
  next
    case (Some i)
    from findIndex_Some [OF Some] have i: "i < length h" by simp
    have "data (updateClaudeSessionId rt fs c convId csid st) =
            AList.update c (h[i := (h ! i)\<lparr>claudeSessionId := Some csid,
                                           lastActivity := now_iso rt (ticks st)\<rparr>]) (data st)"
      by (simp add: updateClaudeSessionId_data Some \<open>chat_history st c = Some h\<close>)
    from history_of_update_data [OF this, of c'] h i show ?thesis
      by (simp add: map_update_same)
  qed
qed

lemma updateLastMessage_ticks: "ticks st \<le> ticks (updateLastMessage rt fs c convId preview st)"
  by (simp add: updateLastMessage_def Let_def read_clock_def split: option.splits)

lemma updateClaudeSessionId_ticks:
  "ticks st \<le> ticks (updateClaudeSessionId rt fs c convId csid st)"
  by (simp add: updateClaudeSessionId_def Let_def read_clock_def split: option.splits)

lemma inserted_in_order_updateLastMessage:
  "inserted_in_order rt st \<Longrightarrow>
   inserted_in_order rt (updateLastMessage rt fs c convId preview st)"
  by (rule inserted_in_order_same_created [where st = st])
    (simp_all add: updateLastMessage_created updateLastMessage_ticks)

lemma inserted_in_order_updateClaudeSessionId:
  "inserted_in_order rt st \<Longrightarrow>
   inserted_in_order rt (updateClaudeSessionId rt fs c convId csid st)"
  by (rule inserted_in_order_same_created [where st = st])
    (simp_all add: updateClaudeSessionId_created updateClaudeSessionId_ticks)

lemma clearHistory_history_of:
  "history_of (clearHistory fs c st) c' = (if c' = c then [] else history_of st c')"
  by (simp add: history_of_def chat_history_def clearHistory_data delete_conv')

lemma inserted_in_order_clearHistory:
  "inserted_in_order rt st \<Longrightarrow> inserted_in_order rt (clearHistory fs c st)"
proof -
  assume k: "inserted_in_order rt st"
  show ?thesis
    unfolding inserted_in_order_def
  proof
    fix c'
    from k obtain ks where ks: "inserted_at rt (history_of st c') ks" "\<forall>k \<in> set ks. k < ticks st"
      unfolding inserted_in_order_def by blast
    have t: "ticks (clearHistory fs c st) = ticks st" by (simp add: clearHistory_def)
    show "\<exists>ks. inserted_at rt (history_of (clearHistory fs c st) c') ks \<and>
               (\<forall>k \<in> set ks. k < ticks (clearHistory fs c st))"
    proof (cases "c' = c")
      case True
      then have "inserted_at rt (history_of (clearHistory fs c st) c') [] \<and>
                 (\<forall>k \<in> set []. k < ticks (clearHistory fs c st))"
        by (simp add: clearHistory_history_of inserted_at_def)
      then show ?thesis ..
    next
      case False
      with ks t have "inserted_at rt (history_of (clearHistory fs c st) c') ks \<and>
                 (\<forall>k \<in> set ks. k < ticks (clearHistory fs c st))"
        by (simp add: clearHistory_history_of)
      then show ?thesis ..
    qed
  qed
qed

lemma createSession_shape_ticks:
  "\<exists>s t. ticks st \<le> t \<and>
         createSession rt fs c directory convIdOpt st =
           (s, saveSession rt fs c (session_conversationId s) (resolveWorkingDirectory fs directory)
                 [] None (st\<lparr>ticks := t, sessions := (sessions st)(c \<mapsto> s)\<rparr>))"
proof (cases "\<exists>x. convIdOpt = Some x \<and> x \<noteq> []")
  case True
  then obtain x where x: "convIdOpt = Some x" "x \<noteq> []" by blast
  show ?thesis
    by (rule exI [of _ "fst (createSession rt fs c directory convIdOpt st)"],
        rule exI [of _ "Suc (Suc (ticks st))"])
      (simp add: x createSession_def Let_def read_date_def)
next
  case False
  then have gen: "(case convIdOpt of
               Some x \<Rightarrow> if x \<noteq> [] then (x, st) else generateConversationId rt st
             | None \<Rightarrow> generateConversationId rt st) = generateConversationId rt st"
    by (simp split: option.splits)
  show ?thesis
    by (rule exI [of _ "fst (createSession rt fs c directory convIdOpt st)"],
        rule exI [of _ "Suc (Suc (Suc (Suc (ticks st))))"])
      (simp add: gen createSession_def Let_def read_date_def generateConversationId_def)
qed

lemma inserted_in_order_createSession:
  assumes "inserted_in_order rt st"
  shows "inserted_in_order rt (snd (createSession rt fs c directory convIdOpt st))"
proof -
  from createSession_shape_ticks [of st rt fs c directory convIdOpt] obtain s t where
    t: "ticks st \<le> t" and
    "createSession rt fs c directory convIdOpt st =
       (s, saveSession rt fs c (session_conversationId s) (resolveWorkingDirectory fs directory)
             [] None (st\<lparr>ticks := t, sessions := (sessions st)(c \<mapsto> s)\<rparr>))"
    by blast
  then show ?thesis
    using inserted_in_order_saveSession [OF inserted_in_order_prelude [OF assms t]]
    by simp
qed

lemma inserted_in_order_resumeSession:
  assumes "inserted_in_order rt st"
  shows "inserted_in_order rt (snd (resumeSession rt fs c convId st))"
proof (cases "getSessionByConversationId st c convId")
  case None
  with assms show ?thesis by (simp add: resumeSession_def)
next
  case (Some e)
  have "ticks st \<le> Suc (ticks st)" by simp
  from inserted_in_order_saveSession [OF inserted_in_order_prelude [OF assms this]]
  show ?thesis by (simp add: resumeSession_found [OF Some])
qed

lemma inserted_in_order_step:
  assumes k: "inserted_in_order rt st"
  shows "inserted_in_order rt (step rt fs call st)"
proof (cases call)
  case (SaveSession c convId path preview csid)
  then show ?thesis using inserted_in_order_saveSession [OF k] by simp
next
  case (UpdateLastMessage c convId preview)
  then show ?thesis using inserted_in_order_updateLastMessage [OF k] by simp
next
  case (UpdateClaudeSessionId c convId csid)
  then show ?thesis using inserted_in_order_updateClaudeSessionId [OF k] by simp
next
  case (ClearHistory c)
  then show ?thesis using inserted_in_order_clearHistory [OF k] by simp
next
  case (CreateSession c directory convIdOpt)
  then show ?thesis using inserted_in_order_createSession [OF k] by simp
next
  case (UpdateActivity c preview)
  have le: "ticks st \<le> Suc (ticks st)" by simp
  note p = inserted_in_order_prelude [OF k le]
  from UpdateActivity k show ?thesis
    by (auto simp: updateActivity_def Let_def read_date_def
        intro: p inserted_in_order_updateLastMessage [OF p] split: option.splits)
next
  case (SetWorkingDirectory c directory)
  show ?thesis
  proof (cases "sessions st c")
    case None
    with SetWorkingDirectory show ?thesis
      using inserted_in_order_createSession [OF k] by (simp add: setWorkingDirectory_def)
  next
    case (Some s)
    have le: "ticks st \<le> Suc (ticks st)" by simp
    from inserted_in_order_saveSession [OF inserted_in_order_prelude [OF k le]]
    show ?thesis
      using SetWorkingDirectory by (simp add: setWorkingDirectory_live [OF Some])
  qed
next
  case (ClearSession c)
  with k show ?thesis by (simp add: clearSession_def inserted_in_order_def)
next
  case (ResumeSession c convId)
  then show ?thesis using inserted_in_order_resumeSession [OF k] by simp
next
  case (ResumeLastSession c)
  then show ?thesis using inserted_in_order_resumeSession [OF k] k
    by (simp add: resumeLastSession_def split: option.splits)
next
  case (SetClaudeSessionId c csid)
  have le: "ticks st \<le> Suc (ticks st)" by simp
  note p = inserted_in_order_prelude [OF k le]
  from SetClaudeSessionId k show ?thesis
    by (auto simp: setClaudeSessionId_def Let_def read_date_def
        intro: inserted_in_order_updateClaudeSessionId [OF p] split: option.splits)
qed

lemma inserted_in_order_run:
  "inserted_in_order rt st \<Longrightarrow> inserted_in_order rt (run rt calls st)"
  by (induction calls arbitrary: st) (auto simp: inserted_in_order_step)

lemma inserted_in_order_initial: "inserted_in_order rt initial_state"
  by (simp add: inserted_in_order_def inserted_at_def)

text \<open>
  Claim C1. After every sequence of public operations from the empty store, for every chat:
  \<open>getLastSession\<close> returns the head of the chat's list, and nothing exactly when the chat
  has no history; the list is ordered by insertion, newest first (its entries carry as
  \<open>createdAt\<close> clock readings of strictly decreasing number); hence, when the clock does
  not run backwards, the list is ordered by \<open>createdAt\<close>, newest first, and no entry is more
  recent than the head. Recency is that of creation: an entry saved again keeps its place
  (claims C3 and C9), whatever its \<open>lastActivity\<close>.
\<close>

theorem history_newest_first:
  assumes "st = run rt calls initial_state"
  shows "(case getLastSession st c of
            None \<Rightarrow> history_of st c = []
          | Some latest \<Rightarrow> history_of st c \<noteq> [] \<and> latest = hd (history_of st c)) \<and>
         (\<exists>ks. inserted_at rt (history_of st c) ks) \<and>
         (clock_monotone rt \<longrightarrow>
            newest_first (history_of st c) \<and>
            (\<forall>e \<in> set (history_of st c). createdAt e \<le> createdAt (hd (history_of st c))))"
proof -
  from assms have "inserted_in_order rt st"
    by (simp add: inserted_in_order_run inserted_in_order_initial)
  then obtain ks where ks: "inserted_at rt (history_of st c) ks"
    unfolding inserted_in_order_def by blast
  have 1: "case getLastSession st c of
            None \<Rightarrow> history_of st c = []
          | Some latest \<Rightarrow> history_of st c \<noteq> [] \<and> latest = hd (history_of st c)"
    by (cases "history_of st c") (simp_all add: getLastSession_history_of)
  have 3: "newest_first (history_of st c) \<and>
            (\<forall>e \<in> set (history_of st c). createdAt e \<le> createdAt (hd (history_of st c)))"
    if m: "clock_monotone rt"
  proof -
    from m ks have nf: "newest_first (history_of st c)" by (rule inserted_at_newest_first)
    then show ?thesis by (cases "history_of st c") (auto simp: newest_first_def)
  qed
  from 1 ks 3 show ?thesis by blast
qed

lemma ticking_now:
  "now_iso ticking_runtime k =
     (if k < 2 then ''2026-01-01T00:00:00.000Z'' else ''2026-01-01T00:00:05.000Z'')"
  by (simp add: ticking_runtime_def)

lemma ticking_history:
  "map (\<lambda>e. (conversationId e, createdAt e, lastActivity e))
     (history_of (run ticking_runtime ticking_calls initial_state) 42) =
   [(''convB'', ''2026-01-01T00:00:05.000Z'', ''2026-01-01T00:00:05.000Z''),
    (''convA'', ''2026-01-01T00:00:00.000Z'', ''2026-01-01T00:00:05.000Z'')]"
proof -
  let ?s1 = "saveSession ticking_runtime example_fs 42 ''convA'' ''/home/bob'' [] None initial_state"
  let ?s2 = "saveSession ticking_runtime example_fs 42 ''convB'' ''/home/bob/proj'' [] None ?s1"
  let ?A = "\<lparr>conversationId = ''convA'', claudeSessionId = None, projectPath = ''/home/bob'',
             projectName = ''bob'', lastMessagePreview = [],
             createdAt = ''2026-01-01T00:00:00.000Z'', lastActivity = ''2026-01-01T00:00:00.000Z''\<rparr>"
  let ?B = "\<lparr>conversationId = ''convB'', claudeSessionId = None, projectPath = ''/home/bob/proj'',
             projectName = ''proj'', lastMessagePreview = [],
             createdAt = ''2026-01-01T00:00:05.000Z'', lastActivity = ''2026-01-01T00:00:05.000Z''\<rparr>"
  have t0: "ticks initial_state = 0" by (simp add: initial_state_def)
  have h1: "history_of ?s1 42 = [?A]"
    by (simp add: saveSession_history_of upserted_def t0 ticking_now
        MAX_HISTORY_PER_CHAT_def basename_def)
  have t1: "ticks ?s1 = 2" by (simp add: saveSession_ticks_eq t0)
  have h2: "history_of ?s2 42 = [?B, ?A]"
    by (simp add: saveSession_history_of [of _ _ _ _ _ _ _ ?s1] h1 upserted_def t1
        ticking_now MAX_HISTORY_PER_CHAT_def basename_def)
  have t2: "ticks ?s2 = 4" by (simp add: saveSession_ticks_eq [of _ _ _ _ _ _ _ ?s1] h1 t1)
  show ?thesis
    by (simp add: ticking_calls_def saveSession_history_of [of _ _ _ _ _ _ _ ?s2] h2 upserted_def t2
        ticking_now MAX_HISTORY_PER_CHAT_def basename_def)
qed

theorem history_newest_first_witness:
  "clock_monotone ticking_runtime \<and>
   map (\<lambda>e. (conversationId e, createdAt e, lastActivity e))
     (history_of (run ticking_runtime ticking_calls initial_state) 42) =
   [(''convB'', ''2026-01-01T00:00:05.000Z'', ''2026-01-01T00:00:05.000Z''),
    (''convA'', ''2026-01-01T00:00:00.000Z'', ''2026-01-01T00:00:05.000Z'')] \<and>
   newest_first (history_of (run ticking_runtime ticking_calls initial_state) 42) \<and>
   (\<exists>latest. getLastSession (run ticking_runtime ticking_calls initial_state) 42 = Some latest \<and>
      conversationId latest = ''convB'')"
proof -
  note t = history_newest_first [OF refl, of ticking_runtime ticking_calls 42]
  from ticking_history obtain b a where
    h: "history_of (run ticking_runtime ticking_calls initial_state) 42 = [b, a]"
      and b: "conversationId b = ''convB''"
    by auto
  from t h b have "\<exists>latest. getLastSession (run ticking_runtime ticking_calls initial_state) 42 = Some latest \<and>
      conversationId latest = ''convB''"
    by (cases "getLastSession (run ticking_runtime ticking_calls initial_state) 42") auto
  with t ticking_runtime_monotone ticking_history show ?thesis by blast
qed

section \<open>The history file\<close>

lemma digit_char_props:
  assumes "d < 10"
  shows "is_digit (digit_char d)" and "digit_value (digit_char d) = d"
proof -
  from assms have "d = 0 \<or> d = 1 \<or> d = 2 \<or> d = 3 \<or> d = 4 \<or> d = 5 \<or> d = 6 \<or> d = 7 \<or> d = 8 \<or> d = 9"
    by arith
  then show "is_digit (digit_char d)" and "digit_value (digit_char d) = d"
    by (auto simp: digit_char_def is_digit_def digit_value_def)
qed

lemma is_digit_not_space: "is_digit c \<Longrightarrow> \<not> is_space c"
  by (auto simp: is_digit_def is_space_def)

lemma is_digit_not_sign: "is_digit c \<Longrightarrow> c \<noteq> CHR ''-'' \<and> c \<noteq> CHR ''+''"
  by (auto simp: is_digit_def)

lemma digits_all: "list_all is_digit (digits n)"
proof (induction n rule: digits.induct)
  case (1 n)
  show ?case
  proof (cases "n < 10")
    case True
    then show ?thesis by (simp add: digits.simps [of n] digit_char_props)
  next
    case False
    with 1 show ?thesis by (simp add: digits.simps [of n] digit_char_props)
  qed
qed

lemma digits_nonempty: "digits n \<noteq> []"
  by (simp add: digits.simps [of n])

lemma digits_value_snoc: "digits_value (ds @ [c]) = 10 * digits_value ds + digit_value c"
  by (simp add: digits_value_def)

lemma digits_value_digits: "digits_value (digits n) = n"
proof (induction n rule: digits.induct)
  case (1 n)
  show ?case
  proof (cases "n < 10")
    case True
    then show ?thesis by (simp add: digits.simps [of n] digits_value_def digit_char_props)
  next
    case False
    with 1 show ?thesis
      by (simp add: digits.simps [of n] digits_value_snoc digit_char_props)
  qed
qed

lemma takeWhile_digits: "takeWhile is_digit (digits n) = digits n"
  using digits_all [of n] by (simp add: list_all_iff)

lemma hd_digits: "is_digit (hd (digits n))"
  using digits_all [of n] digits_nonempty [of n] by (cases "digits n") simp_all

lemma bitlen_0: "bitlen 0 = 0"
  by (simp add: bitlen.simps [of 0])

lemma bitlen_le: "m < 2 ^ k \<Longrightarrow> bitlen m \<le> k"
proof (induction k arbitrary: m)
  case 0
  then show ?case by (simp add: bitlen_0)
next
  case (Suc k)
  show ?case
  proof (cases "m = 0")
    case True
    then show ?thesis by (simp add: bitlen_0)
  next
    case False
    from Suc.prems have "m div 2 < 2 ^ k" by simp
    from Suc.IH [OF this] False show ?thesis by (simp add: bitlen.simps [of m])
  qed
qed

lemma bitlen_ge: "n \<noteq> 0 \<Longrightarrow> 2 ^ (bitlen n - 1) \<le> n"
proof (induction n rule: bitlen.induct)
  case step: (1 n)
  from step.prems have b: "bitlen n = Suc (bitlen (n div 2))" by (simp add: bitlen.simps [of n])
  show ?case
  proof (cases "n div 2 = 0")
    case True
    with step.prems b show ?thesis by (simp add: bitlen_0 Suc_leI)
  next
    case False
    with step.IH step.prems have ih: "2 ^ (bitlen (n div 2) - 1) \<le> n div 2" by simp
    from False have "bitlen (n div 2) = Suc (bitlen (n div 2) - 1)"
      by (simp add: bitlen.simps [of "n div 2"])
    then have "(2::nat) ^ bitlen (n div 2) = 2 * 2 ^ (bitlen (n div 2) - 1)"
      by (metis power_Suc)
    with ih have "(2::nat) ^ bitlen (n div 2) \<le> 2 * (n div 2)" by simp
    also have "\<dots> \<le> n" by simp
    finally show ?thesis by (simp add: b)
  qed
qed

lemma round_to_double_small: "m < 2 ^ 53 \<Longrightarrow> round_to_double m = m"
  using bitlen_le [of m 53] by (simp add: round_to_double_def)

lemma round_to_double_big:
  assumes "\<not> bitlen c \<le> 53"
  shows "2 ^ 53 \<le> round_to_double c"
proof -
  define u :: nat where "u = 2 ^ (bitlen c - 53)"
  from assms have c0: "c \<noteq> 0" by (cases "c = 0") (simp_all add: bitlen_0)
  from assms have e: "bitlen c - 1 = 52 + (bitlen c - 53)" by simp
  have "(2::nat) ^ (bitlen c - 1) = 2 ^ 52 * u" unfolding e u_def by (simp only: power_add)
  with bitlen_ge [OF c0] have "2 ^ 52 * u \<le> c" by simp
  moreover have upos: "0 < u" by (simp add: u_def)
  ultimately have q: "2 ^ 52 \<le> c div u" by (simp add: less_eq_div_iff_mult_less_eq)
  from assms have "bitlen c - 53 = Suc (bitlen c - 54)" by simp
  then have "u = 2 * 2 ^ (bitlen c - 54)" unfolding u_def by (metis power_Suc)
  then have u2: "2 \<le> u" by simp
  from q u2 have "2 ^ 52 * 2 \<le> (c div u) * u" by (rule mult_le_mono)
  then have low: "2 ^ 53 \<le> (c div u) * u" by simp
  also have "\<dots> \<le> (c div u + 1) * u" by simp
  finally have high: "2 ^ 53 \<le> (c div u + 1) * u" .
  from assms low high show ?thesis
    by (simp add: round_to_double_def Let_def u_def [symmetric])
qed

lemma round_to_double_safe:
  assumes "round_to_double c = m" and "m < 2 ^ 53"
  shows "c = m"
proof (cases "bitlen c \<le> 53")
  case True
  with assms show ?thesis by (simp add: round_to_double_def)
next
  case False
  from round_to_double_big [OF this] assms show ?thesis by simp
qed

lemma shortest_search_reads_back:
  "shortest_search m l k = m \<or> round_to_double (shortest_search m l k) = m"
proof (induction m l k rule: shortest_search.induct)
  case (1 m l k)
  show ?case
  proof (cases "l \<le> k")
    case True
    then show ?thesis by (simp add: shortest_search.simps [of m l k])
  next
    case False
    with 1 show ?thesis
      by (simp add: shortest_search.simps [of m l k] Let_def)
  qed
qed

lemma shortest_decimal_safe: "m < 2 ^ 53 \<Longrightarrow> shortest_decimal m = m"
  using shortest_search_reads_back [of m "length (digits m)" 1] round_to_double_safe
  unfolding shortest_decimal_def by blast

lemma not_overflow: "m < 2 ^ 53 \<Longrightarrow> \<not> (2::nat) ^ 1024 \<le> m"
proof -
  assume "m < 2 ^ 53"
  also have "(2::nat) ^ 53 \<le> 2 ^ 1024" by (rule power_increasing) simp_all
  finally show ?thesis by simp
qed

lemma parseInt_digits:
  assumes "m < 2 ^ 53"
  shows "parseInt (digits m) = Num (int m)"
proof -
  obtain c cs where d: "digits m = c # cs" using digits_nonempty [of m] by (cases "digits m") auto
  with hd_digits [of m] have c: "is_digit c" by simp
  then have "\<not> is_space c" "c \<noteq> CHR ''-''" "c \<noteq> CHR ''+''"
    using is_digit_not_space is_digit_not_sign by blast+
  moreover have "takeWhile is_digit (c # cs) = c # cs" using takeWhile_digits [of m] d by simp
  moreover have "digits_value (c # cs) = m" using digits_value_digits [of m] d by simp
  ultimately show ?thesis
    using round_to_double_small [OF assms] not_overflow [OF assms]
    by (simp add: parseInt_def d Let_def)
qed

lemma parseInt_minus_digits:
  assumes "m < 2 ^ 53"
  shows "parseInt (CHR ''-'' # digits m) = Num (- int m)"
proof -
  have "\<not> is_space CHR ''-''" by (simp add: is_space_def)
  then show ?thesis
    using round_to_double_small [OF assms] not_overflow [OF assms]
    by (simp add: parseInt_def Let_def takeWhile_digits digits_nonempty digits_value_digits)
qed

lemma parseInt_number_to_string:
  assumes "\<bar>n\<bar> < 2 ^ 53"
  shows "parseInt (number_to_string n) = Num n"
proof -
  define m where "m = nat \<bar>n\<bar>"
  from assms have safe: "m < 2 ^ 53" by (simp add: m_def nat_less_iff)
  have "(2::nat) ^ 53 \<le> 10 ^ 21" by simp
  with safe have small: "m < 10 ^ 21" by (rule less_le_trans)
  note same = shortest_decimal_safe [OF safe]
  show ?thesis
  proof (cases "n < 0")
    case True
    then have n: "n = - int m" and pos: "0 < m" by (simp_all add: m_def)
    from pos small have "number_to_string (- int m) = CHR ''-'' # digits m"
      by (simp add: number_to_string_def Let_def same)
    then show ?thesis unfolding n by (simp only: parseInt_minus_digits [OF safe])
  next
    case False
    then have n: "n = int m" by (simp add: m_def)
    from small have "number_to_string (int m) = digits m"
      by (simp add: number_to_string_def Let_def same)
    then show ?thesis unfolding n by (simp only: parseInt_digits [OF safe])
  qed
qed

lemma schema_entry_to_json: "sessionHistoryEntrySchema (entry_to_json e) = Some e"
  by (cases "claudeSessionId e")
    (simp_all add: sessionHistoryEntrySchema_def entry_to_json_def required_string_def
      optional_string_def)

lemma those_map_Some: "(\<And>x. x \<in> set xs \<Longrightarrow> f x = Some (g x)) \<Longrightarrow> those (map f xs) = Some (map g xs)"
  by (induction xs) simp_all

lemma schema_entry_array:
  "entry_array_schema (JArray (map entry_to_json h)) = Some h"
proof -
  have "those (map sessionHistoryEntrySchema (map entry_to_json h)) = Some (map id h)"
    unfolding map_map by (rule those_map_Some) (simp add: schema_entry_to_json)
  then show ?thesis by (simp add: entry_array_schema_def)
qed

lemma schema_data_to_json: "sessionHistoryDataSchema (data_to_json d) = Some (file_keys d)"
proof -
  have "those (map (\<lambda>(k, v). map_option (Pair k) (entry_array_schema v))
           (map (\<lambda>(chatId, history).
                   (number_to_string chatId, JArray (map entry_to_json history))) d)) =
        Some (map (\<lambda>(chatId, history). (number_to_string chatId, history)) d)"
    unfolding map_map by (rule those_map_Some) (auto simp: schema_entry_array)
  then show ?thesis
    by (simp add: sessionHistoryDataSchema_def data_to_json_def file_keys_def)
qed

lemma update_new_key: "k \<notin> fst ` set al \<Longrightarrow> AList.update k v al = al @ [(k, v)]"
  by (induction al) auto

lemma load_entries_file_keys_aux:
  assumes "distinct (map fst acc @ map fst d)"
    and "list_all (\<lambda>(chatId, history). \<bar>chatId\<bar> < 2 ^ 53) d"
  shows "fold (\<lambda>(key, value) d.
             (case parseInt key of
                NaN \<Rightarrow> d
              | Infinite \<Rightarrow> d
              | Num chatId \<Rightarrow> AList.update chatId value d))
          (file_keys d) acc = acc @ d"
  using assms
proof (induction d arbitrary: acc)
  case Nil
  then show ?case by (simp add: file_keys_def)
next
  case (Cons a d)
  obtain c h where a: "a = (c, h)" by (cases a)
  from Cons.prems a have c: "\<bar>c\<bar> < 2 ^ 53" and new: "c \<notin> fst ` set acc"
    and rest: "list_all (\<lambda>(chatId, history). \<bar>chatId\<bar> < 2 ^ 53) d"
    and dist: "distinct (map fst (acc @ [(c, h)]) @ map fst d)"
    by auto
  from Cons.IH [OF dist rest] show ?case
    by (simp add: a file_keys_def parseInt_number_to_string [OF c] update_new_key [OF new])
qed

lemma load_entries_file_keys:
  assumes "distinct (map fst d)" and "list_all (\<lambda>(chatId, history). \<bar>chatId\<bar> < 2 ^ 53) d"
  shows "load_entries (file_keys d) = d"
  using load_entries_file_keys_aux [of "[]" d] assms by (simp add: load_entries_def)

lemma restart_save:
  assumes "storable st" and "writable fs"
  shows "data (restart (save fs st)) = data st"
  using assms
  by (simp add: restart_def load_def save_def schema_data_to_json load_entries_file_keys
      storable_def)

lemma load_save:
  assumes "storable st" and "writable fs"
  shows "data (load (save fs st)) = data st"
  using assms
  by (simp add: load_def save_def schema_data_to_json load_entries_file_keys storable_def)

lemma storable_update:
  assumes "storable st" and "\<bar>c\<bar> < 2 ^ 53" and "data st' = AList.update c h (data st)"
  shows "storable st'"
  using assms by (simp add: storable_def distinct_update list_all_update)

lemma storable_delete:
  assumes "storable st" and "data st' = AList.delete c (data st)"
  shows "storable st'"
  using assms by (simp add: storable_def distinct_delete list_all_delete)

lemma storable_same: "storable st \<Longrightarrow> data st' = data st \<Longrightarrow> storable st'"
  by (simp add: storable_def)

lemma step_data:
  "data (step rt fs call st) = data st \<or>
   (\<exists>h. data (step rt fs call st) = AList.update (call_chat call) h (data st)) \<or>
   data (step rt fs call st) = AList.delete (call_chat call) (data st)"
proof (cases call)
  case (SaveSession c convId path preview csid)
  then show ?thesis by (auto simp: saveSession_data)
next
  case (UpdateLastMessage c convId preview)
  then show ?thesis by (auto simp: updateLastMessage_data split: option.splits)
next
  case (UpdateClaudeSessionId c convId csid)
  then show ?thesis by (auto simp: updateClaudeSessionId_data split: option.splits)
next
  case (ClearHistory c)
  then show ?thesis by (simp add: clearHistory_data)
next
  case (CreateSession c directory convIdOpt)
  from createSession_shape [of rt fs c directory convIdOpt st] obtain s t where
    "createSession rt fs c directory convIdOpt st =
       (s, saveSession rt fs c (session_conversationId s) (resolveWorkingDirectory fs directory)
             [] None (st\<lparr>ticks := t, sessions := (sessions st)(c \<mapsto> s)\<rparr>))"
    by blast
  with CreateSession show ?thesis by (auto simp: saveSession_data)
next
  case (UpdateActivity c preview)
  then show ?thesis
    by (auto simp: updateActivity_def Let_def read_date_def updateLastMessage_data
        split: option.splits)
next
  case (SetWorkingDirectory c directory)
  show ?thesis
  proof (cases "sessions st c")
    case None
    from createSession_shape [of rt fs c directory None st] obtain s t where
      "createSession rt fs c directory None st =
         (s, saveSession rt fs c (session_conversationId s) (resolveWorkingDirectory fs directory)
               [] None (st\<lparr>ticks := t, sessions := (sessions st)(c \<mapsto> s)\<rparr>))"
      by blast
    with SetWorkingDirectory None show ?thesis
      by (auto simp: setWorkingDirectory_def saveSession_data)
  next
    case (Some s)
    with SetWorkingDirectory show ?thesis
      by (auto simp: setWorkingDirectory_live [OF Some] saveSession_data)
  qed
next
  case (ClearSession c)
  then show ?thesis by (simp add: clearSession_def)
next
  case (ResumeSession c convId)
  show ?thesis
  proof (cases "getSessionByConversationId st c convId")
    case None
    with ResumeSession show ?thesis by (simp add: resumeSession_def)
  next
    case (Some e)
    with ResumeSession show ?thesis
      by (auto simp: resumeSession_found [OF Some] saveSession_data)
  qed
next
  case (ResumeLastSession c)
  show ?thesis
  proof (cases "getLastSession st c")
    case None
    with ResumeLastSession show ?thesis by (simp add: resumeLastSession_def)
  next
    case last: (Some e)
    show ?thesis
    proof (cases "getSessionByConversationId st c (conversationId e)")
      case None
      with ResumeLastSession last show ?thesis
        by (simp add: resumeLastSession_def resumeSession_def)
    next
      case (Some e')
      with ResumeLastSession last show ?thesis
        by (auto simp: resumeLastSession_def resumeSession_found [OF Some] saveSession_data)
    qed
  qed
next
  case (SetClaudeSessionId c csid)
  then show ?thesis
    by (auto simp: setClaudeSessionId_def Let_def read_date_def updateClaudeSessionId_data
        split: option.splits)
qed

lemma storable_step:
  assumes "storable st" and "\<bar>call_chat call\<bar> < 2 ^ 53"
  shows "storable (step rt fs call st)"
  using step_data [of rt fs call st] assms
  by (auto intro: storable_update storable_delete storable_same)

lemma storable_run:
  "storable st \<Longrightarrow> list_all (\<lambda>(fs, call). \<bar>call_chat call\<bar> < 2 ^ 53) calls \<Longrightarrow>
   storable (run rt calls st)"
  by (induction calls arbitrary: st) (auto simp: storable_step)

lemma storable_initial: "storable initial_state"
  by (simp add: storable_def initial_state_def)

text \<open>
  For every state built from the empty state by public operations on chats whose ids are
  safe integers: writing the history file and loading it, in the same process or in a
  restarted one, gives the same history mapping, that is, the same chats, and for each
  chat the same list of entries (same order, same fields, an absent \<open>claudeSessionId\<close>
  absent again).
\<close>

lemma history_file_roundtrip_safe:
  assumes "list_all (\<lambda>(fs, call). \<bar>call_chat call\<bar> < 2 ^ 53) calls"
    and "st = run rt calls initial_state"
    and "writable fs"
  shows "chat_history (load (save fs st)) = chat_history st \<and>
         chat_history (restart (save fs st)) = chat_history st"
proof -
  from storable_initial assms(1) have "storable (run rt calls initial_state)"
    by (rule storable_run)
  with assms(2,3) have "data (load (save fs st)) = data st"
    and "data (restart (save fs st)) = data st"
    by (simp_all add: load_save restart_save)
  then show ?thesis by (simp add: chat_history_def fun_eq_iff)
qed

text \<open>How JavaScript prints and reads numbers beyond the safe integers: \<open>2^64\<close> is printed
  with the 17 digits that identify it and read back as itself; \<open>10^21\<close> is printed in the
  exponent notation, of which \<open>parseInt\<close> reads the digit before the \<open>e\<close>.\<close>

lemma number_to_string_2_64: "number_to_string 18446744073709551616 = ''18446744073709552000''"
  by (simp add: number_to_string_def shortest_decimal_def shortest_search.simps
      round_to_double_def bitlen.simps digits.simps digit_char_def Let_def)

lemma parseInt_2_64: "parseInt ''18446744073709552000'' = Num 18446744073709551616"
  by (simp add: parseInt_def is_space_def is_digit_def digits_value_def digit_value_def
      round_to_double_def bitlen.simps Let_def)

lemma number_to_string_huge: "number_to_string 1000000000000000000000 = ''1e+21''"
  by (simp add: number_to_string_def shortest_decimal_def shortest_search.simps
      round_to_double_def bitlen.simps exponent_notation_def digits.simps digit_char_def Let_def)

lemma parseInt_huge: "parseInt ''1e+21'' = Num 1"
  by (simp add: parseInt_def is_space_def is_digit_def digits_value_def digit_value_def
      round_to_double_def bitlen.simps)

lemma example_huge_data:
  "data example_huge =
     [(1000000000000000000000,
       [upserted example_runtime initial_state [] ''convA'' ''/home/bob'' [] None])]"
  by (simp add: example_huge_def saveSession_data MAX_HISTORY_PER_CHAT_def)
    (simp add: initial_state_def)

text \<open>
  Claim C2: for every state built by the public operations with integer chat ids, \<open>save\<close>
  followed by \<open>load\<close> gives an equivalent history mapping. The code breaks it at the chat id
  \<open>10^21\<close>, an integer that is a JavaScript number. \<open>saveSession\<close> files the conversation
  under the property \<^verbatim>\<open>1e+21\<close> and \<open>save\<close> writes that key; \<open>load\<close>, whose comment says
  that it converts the string keys to number keys, reads the key with \<open>parseInt(key, 10)\<close>
  as \<open>1\<close>. After a restart the history of chat \<open>10^21\<close> is gone and stands under chat
  \<open>1\<close>. (\<open>Number(key)\<close>, with which the loaders of the other settings files of the
  repository read their keys, gives \<open>10^21\<close> back.)
\<close>

theorem history_file_roundtrip_fails:
  "writable example_fs \<and>
   example_huge =
     run example_runtime
       [(example_fs, SaveSession 1000000000000000000000 ''convA'' ''/home/bob'' [] None)]
       initial_state \<and>
   chat_history example_huge 1000000000000000000000 \<noteq> None \<and>
   chat_history (restart (save example_fs example_huge)) 1000000000000000000000 = None \<and>
   chat_history (restart (save example_fs example_huge)) 1 =
     chat_history example_huge 1000000000000000000000 \<and>
   chat_history (restart (save example_fs example_huge)) \<noteq> chat_history example_huge"
proof -
  have w: "writable example_fs" by (simp add: example_fs_def)
  have before: "chat_history example_huge 1000000000000000000000 \<noteq> None"
    by (simp add: chat_history_def example_huge_data)
  have "data (restart (save example_fs example_huge)) =
          load_entries (file_keys (data example_huge))"
    using w by (simp add: restart_def load_def save_def schema_data_to_json)
  also have "\<dots> = [(1, [upserted example_runtime initial_state [] ''convA'' ''/home/bob'' [] None])]"
    by (simp add: example_huge_data file_keys_def load_entries_def number_to_string_huge
        parseInt_huge)
  finally have after:
    "data (restart (save example_fs example_huge)) =
       [(1, [upserted example_runtime initial_state [] ''convA'' ''/home/bob'' [] None])]" .
  have gone: "chat_history (restart (save example_fs example_huge)) 1000000000000000000000 = None"
    by (simp add: chat_history_def after)
  have moved: "chat_history (restart (save example_fs example_huge)) 1 =
     chat_history example_huge 1000000000000000000000"
    by (simp add: chat_history_def after example_huge_data)
  from before gone have differ: "chat_history (restart (save example_fs example_huge)) \<noteq>
      chat_history example_huge"
    by metis
  from w before gone moved differ show ?thesis by (simp add: example_huge_def)
qed

end
